theory Spec2Isabelle
  imports Complex_Main "HOL-Library.Stream" "HOL-Library.Sublist"
begin

section \<open>HydroSense dashboard: signal generator, history and status evaluation\<close>

text \<open>
  The development embeds \<^verbatim>\<open>src/App.jsx\<close>. JavaScript numbers are IEEE doubles; they are
  idealised here as real numbers, so every sensor field of a sample is a finite number
  (no \<^verbatim>\<open>NaN\<close>, no infinities, no rounding of the arithmetic itself). The two sources of
  nondeterminism of the component are inputs of the model: the successive outcomes of
  \<^verbatim>\<open>Math.random()\<close> are a stream of reals that every draw consumes from the front, and
  each reading of the clock is an integer number of milliseconds, which stands for the ISO
  string that \<^verbatim>\<open>toISOString\<close> makes of it.
\<close>

subsection \<open>Configuration\<close>

record thresholds =
  pH_min :: real
  pH_max :: real
  turbidity_max :: real
  temperature_max :: real
  waterLevelPercent_min :: real

definition THRESHOLDS :: thresholds where
  "THRESHOLDS = \<lparr> pH_min = 6.5, pH_max = 8.5, turbidity_max = 5,
                   temperature_max = 35, waterLevelPercent_min = 20 \<rparr>"

definition INTERVAL_MS :: int where
  "INTERVAL_MS = 1800"

definition HISTORY_POINTS :: nat where
  "HISTORY_POINTS = 40"

subsection \<open>Helpers\<close>

text \<open>\<^verbatim>\<open>clamp = (v, a, b) => Math.max(a, Math.min(b, v))\<close>\<close>

definition clamp :: "real \<Rightarrow> real \<Rightarrow> real \<Rightarrow> real" where
  "clamp v a b = max a (min b v)"

text \<open>
  \<^verbatim>\<open>Math.random()\<close> takes the next outcome of the source; the specification of the language
  puts it in the half-open interval from 0 to 1, which the theorems that need it assume of
  the stream.
\<close>

definition Math_random :: "real stream \<Rightarrow> real \<times> real stream" where
  "Math_random g = (shd g, stl g)"

definition unit_draws :: "real stream \<Rightarrow> bool" where
  "unit_draws g = (\<forall>n. 0 \<le> g !! n \<and> g !! n < 1)"

text \<open>\<^verbatim>\<open>rand = (a, b) => Math.random() * (b - a) + a\<close>\<close>

definition rand :: "real \<Rightarrow> real \<Rightarrow> real stream \<Rightarrow> real \<times> real stream" where
  "rand a b g = (case Math_random g of (u, g') \<Rightarrow> (u * (b - a) + a, g'))"

text \<open>\<^verbatim>\<open>approach(current, target, rate)\<close>: move current toward target by a fraction.\<close>

definition approach :: "real \<Rightarrow> real \<Rightarrow> real \<Rightarrow> real" where
  "approach current target rate = current + (target - current) * rate"

text \<open>
  \<^verbatim>\<open>jitter(prev, minDelta, maxDelta)\<close>: the magnitude is drawn first, the sign second.
\<close>

definition jitter :: "real \<Rightarrow> real \<Rightarrow> real \<Rightarrow> real stream \<Rightarrow> real \<times> real stream" where
  "jitter prev minDelta maxDelta g =
     (case rand minDelta maxDelta g of (m, g1) \<Rightarrow>
      case Math_random g1 of (u, g2) \<Rightarrow>
        (prev + m * (if u < 0.5 then - 1 else 1), g2))"

subsection \<open>Decimal rendering of numbers\<close>

definition digit_char :: "nat \<Rightarrow> char" where
  "digit_char n = ''0123456789'' ! (n mod 10)"

fun digits :: "nat \<Rightarrow> string" where
  "digits n = (if n < 10 then [digit_char n] else digits (n div 10) @ [digit_char n])"

declare digits.simps [simp del]

text \<open>
  A number interpolated into a template literal is printed by the language's conversion
  of numbers to strings. It takes the shortest digit string \<open>s\<close> of \<open>k\<close> digits and the
  position \<open>n\<close> of the point with \<open>s \<times> 10^(n - k)\<close> the number, and prints
  \<^item> the digits followed by \<open>n - k\<close> zeros when \<open>k \<le> n \<le> 21\<close>,
  \<^item> the digits with a point after the first \<open>n\<close> when \<open>0 < n \<le> 21\<close>,
  \<^item> \<^verbatim>\<open>0.\<close>, \<open>-n\<close> zeros and the digits when \<open>-6 < n \<le> 0\<close>,
  \<^item> and otherwise the first digit, a point and the other digits if there are any, then
    \<^verbatim>\<open>e\<close>, the sign of \<open>n - 1\<close> and its magnitude.

  On the reals of this model the digit string is found as follows: \<open>j\<close> is the least number
  of fraction digits that makes the magnitude times \<open>10^j\<close> a whole number \<open>N\<close>; a whole
  magnitude loses its trailing zeros \<open>z\<close>. Then \<open>s\<close> is \<open>N\<close> without those zeros and
  \<open>n = k + z - j\<close>. The search for \<open>j\<close> stops at 340 fraction digits, which is more than
  the shortest decimal of any double has; a real without such an expansion is not the
  shortest decimal of a double, and the model prints the digits it has found by then.
\<close>

definition whole :: "real \<Rightarrow> bool" where
  "whole y = (y \<le> real_of_int \<lfloor>y\<rfloor>)"

fun fraction_places :: "nat \<Rightarrow> nat \<Rightarrow> real \<Rightarrow> nat" where
  "fraction_places 0 k x = k"
| "fraction_places (Suc fuel) k x =
     (if whole (x * 10 ^ k) then k else fraction_places fuel (Suc k) x)"

fun trailing_zeros :: "nat \<Rightarrow> nat" where
  "trailing_zeros n = (if n = 0 \<or> n mod 10 \<noteq> 0 then 0 else Suc (trailing_zeros (n div 10)))"

declare trailing_zeros.simps [simp del]

definition scientific :: "string \<Rightarrow> string" where
  "scientific ds = (if length ds = 1 then ds else take 1 ds @ ''.'' @ drop 1 ds)"

definition exponent_part :: "bool \<Rightarrow> nat \<Rightarrow> string" where
  "exponent_part negative e = ''e'' @ (if negative then ''-'' else ''+'') @ digits e"

definition decimal_body :: "nat \<Rightarrow> nat \<Rightarrow> string" where
  "decimal_body j N =
     (let z = (if j = 0 then trailing_zeros N else 0);
          ds = digits (N div 10 ^ z);
          k = length ds
      in if j = 0
         then (if k + z \<le> 21 then ds @ replicate z (CHR ''0'')
               else scientific ds @ exponent_part False (k + z - 1))
         else if j < k
         then (if k - j \<le> 21 then take (k - j) ds @ ''.'' @ drop (k - j) ds
               else scientific ds @ exponent_part False (k - j - 1))
         else (if j - k < 6 then ''0.'' @ replicate (j - k) (CHR ''0'') @ ds
               else scientific ds @ exponent_part True (j - k + 1)))"

definition Number_toString :: "real \<Rightarrow> string" where
  "Number_toString x =
     (let a = \<bar>x\<bar>;
          j = fraction_places 340 0 a;
          N = nat \<lfloor>a * 10 ^ j\<rfloor>
      in (if x < 0 then ''-'' else '''') @ decimal_body j N)"

text \<open>The reals that have a decimal expansion of at most 340 fraction digits.\<close>

definition is_decimal :: "real \<Rightarrow> bool" where
  "is_decimal x = whole (\<bar>x\<bar> * 10 ^ fraction_places 340 0 \<bar>x\<bar>)"

text \<open>
  \<^verbatim>\<open>Number.prototype.toFixed(d)\<close>: the sign is split off; a magnitude of \<open>10^21\<close> or more
  is printed as the conversion to a string prints it; otherwise \<open>n\<close> is the integer for
  which \<open>n / 10^d\<close> is closest to the magnitude (the larger one on a tie), and its digits
  are padded with zeros to at least \<open>d + 1\<close> places before the point is inserted.
\<close>

definition toFixed_int :: "nat \<Rightarrow> real \<Rightarrow> nat" where
  "toFixed_int d x = nat \<lfloor>\<bar>x\<bar> * 10 ^ d + 1 / 2\<rfloor>"

definition toFixed :: "real \<Rightarrow> nat \<Rightarrow> string" where
  "toFixed x d =
     (let a = \<bar>x\<bar>;
          m = (if a \<ge> 10 ^ 21 then Number_toString a
               else let n = digits (toFixed_int d x) in
                    if d = 0 then n
                    else let p = replicate (d + 1 - length n) (CHR ''0'') @ n
                         in take (length p - d) p @ ''.'' @ drop (length p - d) p)
      in (if x < 0 then ''-'' else '''') @ m)"

text \<open>
  \<^verbatim>\<open>Number(x.toFixed(d))\<close>: the number that the string printed by \<open>toFixed\<close> denotes; from
  \<open>10^21\<close> on that string is the number's own shortest decimal.
\<close>

definition Number_toFixed :: "real \<Rightarrow> nat \<Rightarrow> real" where
  "Number_toFixed x d =
     (if \<bar>x\<bar> \<ge> 10 ^ 21 then x
      else (if x < 0 then - 1 else 1) * real (toFixed_int d x) / 10 ^ d)"

text \<open>\<^verbatim>\<open>format = (v, d = 2) => Number(v).toFixed(d)\<close>\<close>

definition format :: "real \<Rightarrow> nat \<Rightarrow> string" where
  "format v d = toFixed v d"

subsection \<open>The number a decimal numeral denotes\<close>

text \<open>
  The reading of a numeral, against which the printed strings are judged: an optional
  minus sign, decimal digits with an optional point, and an optional exponent part of
  \<^verbatim>\<open>e\<close>, a sign and decimal digits.
\<close>

definition digit_val :: "char \<Rightarrow> nat" where
  "digit_val c = length (takeWhile (\<lambda>d. d \<noteq> c) ''0123456789'')"

definition nat_of_digits :: "string \<Rightarrow> nat" where
  "nat_of_digits s = foldl (\<lambda>a c. 10 * a + digit_val c) 0 s"

definition digit_string :: "string \<Rightarrow> bool" where
  "digit_string s = (set s \<subseteq> set ''0123456789'')"

definition mantissa_value :: "string \<Rightarrow> real" where
  "mantissa_value s =
     (let ipart = takeWhile (\<lambda>c. c \<noteq> CHR ''.'') s;
          fpart = drop 1 (dropWhile (\<lambda>c. c \<noteq> CHR ''.'') s)
      in real (nat_of_digits ipart) + real (nat_of_digits fpart) / 10 ^ length fpart)"

definition unsigned_value :: "string \<Rightarrow> real" where
  "unsigned_value s =
     (let m = takeWhile (\<lambda>c. c \<noteq> CHR ''e'') s;
          ex = drop 1 (dropWhile (\<lambda>c. c \<noteq> CHR ''e'') s)
      in mantissa_value m *
           (case ex of
              [] \<Rightarrow> 1
            | sg # ed \<Rightarrow> if sg = CHR ''-'' then 1 / 10 ^ nat_of_digits ed
                          else 10 ^ nat_of_digits ed))"

definition decimal_value :: "string \<Rightarrow> real" where
  "decimal_value s =
     (case s of
        [] \<Rightarrow> 0
      | c # r \<Rightarrow> if c = CHR ''-'' then - unsigned_value r else unsigned_value s)"

subsection \<open>Samples and the status of the current sample\<close>

record sample =
  timestamp :: int
  pH :: real
  turbidity :: real
  temperature :: real
  waterLevelPercent :: real

datatype channel_status = Ok | Warn | Bad

record status =
  status_pH :: channel_status
  status_turbidity :: channel_status
  status_temperature :: channel_status
  status_waterLevel :: channel_status

text \<open>The object \<^verbatim>\<open>status\<close> that every render computes from \<^verbatim>\<open>current\<close>.\<close>

definition status_of :: "sample \<Rightarrow> status" where
  "status_of current =
     \<lparr> status_pH = (if pH current \<ge> pH_min THRESHOLDS \<and> pH current \<le> pH_max THRESHOLDS
                     then Ok else Bad),
       status_turbidity = (if turbidity current \<le> turbidity_max THRESHOLDS then Ok else Bad),
       status_temperature = (if temperature current \<le> temperature_max THRESHOLDS
                             then Ok else Warn),
       status_waterLevel = (if waterLevelPercent current \<ge> waterLevelPercent_min THRESHOLDS
                            then Ok else Bad) \<rparr>"

text \<open>\<^verbatim>\<open>Object.values(status)\<close>, in the order of the object literal.\<close>

definition Object_values :: "status \<Rightarrow> channel_status list" where
  "Object_values s = [status_pH s, status_turbidity s, status_temperature s, status_waterLevel s]"

definition overallOk :: "status \<Rightarrow> bool" where
  "overallOk s = list_all (\<lambda>c. c = Ok \<or> c = Warn) (Object_values s)"

subsection \<open>Alert messages\<close>

text \<open>
  The array \<^verbatim>\<open>alerts\<close> of a render: one push per channel whose status is "bad", in the
  order pH, turbidity, water level. The pH and turbidity values go through \<open>format\<close>; the
  water level and the thresholds are interpolated as they are.
\<close>

definition alerts :: "sample \<Rightarrow> string list" where
  "alerts current =
     (let status = status_of current in
      (if status_pH status = Bad
       then [''pH '' @ format (pH current) 2 @ '' out of safe range ('' @
             Number_toString (pH_min THRESHOLDS) @ ''-'' @
             Number_toString (pH_max THRESHOLDS) @ '')'']
       else []) @
      (if status_turbidity status = Bad
       then [''Turbidity '' @ format (turbidity current) 2 @ '' NTU > '' @
             Number_toString (turbidity_max THRESHOLDS)]
       else []) @
      (if status_waterLevel status = Bad
       then [''Water level '' @ Number_toString (waterLevelPercent current) @ ''% low (< '' @
             Number_toString (waterLevelPercent_min THRESHOLDS) @ ''%)'']
       else []))"

subsection \<open>Sparkline paths\<close>

text \<open>\<^verbatim>\<open>a || b\<close> on numbers: \<open>b\<close> replaces a zero.\<close>

definition or_else :: "real \<Rightarrow> real \<Rightarrow> real" where
  "or_else a b = (if a = 0 then b else a)"

text \<open>
  \<^verbatim>\<open>Math.max(...values)\<close> and \<^verbatim>\<open>Math.min(...values)\<close>; \<open>sparkPath\<close> calls them on a
  non-empty array only.
\<close>

definition Math_max :: "real list \<Rightarrow> real" where
  "Math_max values = fold max (tl values) (hd values)"

definition Math_min :: "real list \<Rightarrow> real" where
  "Math_min values = fold min (tl values) (hd values)"

definition join :: "string \<Rightarrow> string list \<Rightarrow> string" where
  "join sep parts = (case parts of [] \<Rightarrow> [] | p # ps \<Rightarrow> p @ concat (map (\<lambda>q. sep @ q) ps))"

text \<open>The two divisors of \<open>sparkPath\<close>, each guarded by \<^verbatim>\<open>|| 1\<close>.\<close>

definition spark_range :: "real list \<Rightarrow> real" where
  "spark_range values = or_else (Math_max values - Math_min values) 1"

definition spark_steps :: "real list \<Rightarrow> real" where
  "spark_steps values = or_else (real (length values) - 1) 1"

text \<open>The coordinates that the callback of \<^verbatim>\<open>values.map\<close> computes for element \<open>v\<close> at index \<open>i\<close>.\<close>

definition spark_point :: "real list \<Rightarrow> real \<Rightarrow> real \<Rightarrow> nat \<Rightarrow> real \<Rightarrow> real \<times> real" where
  "spark_point values w h i v =
     (let x = (real i / spark_steps values) * w;
          y = h - ((v - Math_min values) / spark_range values) * h
      in (x, y))"

definition spark_points :: "real list \<Rightarrow> real \<Rightarrow> real \<Rightarrow> (real \<times> real) list" where
  "spark_points values w h = map (\<lambda>(i, v). spark_point values w h i v) (enumerate 0 values)"

definition sparkPath :: "real list \<Rightarrow> real \<Rightarrow> real \<Rightarrow> string" where
  "sparkPath values w h =
     (if length values = 0 then []
      else join '' ''
             (map (\<lambda>(i, v). case spark_point values w h i v of (x, y) \<Rightarrow>
                     (if i = 0 then ''M'' else ''L'') @ '' '' @ toFixed x 1 @ '' '' @ toFixed y 1)
                (enumerate 0 values)))"

subsection \<open>The timer tick\<close>

text \<open>\<^verbatim>\<open>xs.slice(-n)\<close> for a positive \<open>n\<close>: the last \<open>n\<close> elements, all of them if there are fewer.\<close>

definition slice_last :: "nat \<Rightarrow> 'a list \<Rightarrow> 'a list" where
  "slice_last n xs = drop (length xs - n) xs"

definition nextPH :: "sample \<Rightarrow> real stream \<Rightarrow> real \<times> real stream" where
  "nextPH lst g =
     (case rand 6.8 7.6 g of (target, g1) \<Rightarrow>
      case rand (- 0.03) 0.03 g1 of (noise, g2) \<Rightarrow>
        (clamp (approach (pH lst) target 0.08 + noise) 5.0 9.5, g2))"

definition nextTurb :: "sample \<Rightarrow> real stream \<Rightarrow> real \<times> real stream" where
  "nextTurb lst g =
     (case rand (- 0.12) 0.28 g of (noise, g1) \<Rightarrow>
      let t = clamp (turbidity lst + noise) 0 20 in
      case Math_random g1 of (u, g2) \<Rightarrow>
        if u < 0.015
        then (case rand 2 6 g2 of (spike, g3) \<Rightarrow> (clamp (t + spike) 0 50, g3))
        else (t, g2))"

definition nextTemp :: "sample \<Rightarrow> real stream \<Rightarrow> real \<times> real stream" where
  "nextTemp lst g =
     (case rand 26 31 g of (target, g1) \<Rightarrow>
      case rand (- 0.05) 0.12 g1 of (noise, g2) \<Rightarrow>
        (clamp (approach (temperature lst) target 0.03 + noise) 15 45, g2))"

definition nextLevel :: "sample \<Rightarrow> real stream \<Rightarrow> real \<times> real stream" where
  "nextLevel lst g =
     (case rand 0.05 0.5 g of (decline, g1) \<Rightarrow>
      let l0 = waterLevelPercent lst - decline in
      case Math_random g1 of (u1, g2) \<Rightarrow>
      case (if u1 < 0.06
            then (case rand 0.02 0.3 g2 of (inc, g3) \<Rightarrow> (l0 + inc, g3))
            else (l0, g2)) of (l1, g4) \<Rightarrow>
      case Math_random g4 of (u2, g5) \<Rightarrow>
      case (if u2 < 0.02
            then (case rand 78 100 g5 of (r, g6) \<Rightarrow> (clamp r 0 100, g6))
            else (l1, g5)) of (l2, g7) \<Rightarrow>
        (clamp l2 0 100, g7))"

text \<open>The object \<^verbatim>\<open>nextPoint\<close>, whose fields are rounded before they are stored.\<close>

definition nextPoint :: "int \<Rightarrow> sample \<Rightarrow> real stream \<Rightarrow> sample \<times> real stream" where
  "nextPoint now lst g =
     (case nextPH lst g of (ph, g1) \<Rightarrow>
      case nextTurb lst g1 of (tu, g2) \<Rightarrow>
      case nextTemp lst g2 of (te, g3) \<Rightarrow>
      case nextLevel lst g3 of (lv, g4) \<Rightarrow>
        (\<lparr> timestamp = now,
           pH = Number_toFixed ph 2,
           turbidity = Number_toFixed tu 2,
           temperature = Number_toFixed te 1,
           waterLevelPercent = Number_toFixed lv 1 \<rparr>, g4))"

subsection \<open>Component state and its handlers\<close>

record app_state =
  modeScientific :: bool
  history :: "sample list"
  current :: sample

text \<open>The state of the first render; \<open>t0\<close> is the clock reading of that render.\<close>

definition initial_current :: "int \<Rightarrow> sample" where
  "initial_current t0 =
     \<lparr> timestamp = t0, pH = 7.4, turbidity = 1.5, temperature = 28.0, waterLevelPercent = 78.5 \<rparr>"

definition initial_state :: "int \<Rightarrow> app_state" where
  "initial_state t0 = \<lparr> modeScientific = False, history = [], current = initial_current t0 \<rparr>"

text \<open>
  The callback of \<^verbatim>\<open>setInterval\<close>. Its \<^verbatim>\<open>current\<close> is the one the effect closed over, the
  sample of the first render (\<open>current0\<close>), used when the history is empty.
\<close>

definition tick :: "sample \<Rightarrow> int \<Rightarrow> app_state \<Rightarrow> real stream \<Rightarrow> app_state \<times> real stream" where
  "tick current0 now st g =
     (let prevHist = history st;
          lst = (if prevHist = [] then current0 else last prevHist)
      in case nextPoint now lst g of (np, g') \<Rightarrow>
           (st\<lparr> history := slice_last HISTORY_POINTS (prevHist @ [np]), current := np \<rparr>, g'))"

text \<open>
  One pass of the seeding loop of the effect, at loop index \<open>i\<close> and clock reading \<open>now\<close>.
  Every field of a sample is present, so each \<^verbatim>\<open>prev.x ?? default\<close> is \<open>prev.x\<close>.
\<close>

definition seed_step :: "int \<Rightarrow> nat \<Rightarrow> sample \<Rightarrow> real stream \<Rightarrow> sample \<times> real stream" where
  "seed_step now i prev g =
     (case jitter (pH prev) 0.01 0.08 g of (p, g1) \<Rightarrow>
      case jitter (turbidity prev) 0.01 0.4 g1 of (t, g2) \<Rightarrow>
      case jitter (temperature prev) 0.01 0.2 g2 of (te, g3) \<Rightarrow>
      case rand 0.02 0.6 g3 of (d, g4) \<Rightarrow>
      let prev' = \<lparr> timestamp = now - int (HISTORY_POINTS - i) * INTERVAL_MS,
                     pH = clamp p 5.5 9.5,
                     turbidity = clamp t 0 12,
                     temperature = clamp te 18 42,
                     waterLevelPercent = clamp (waterLevelPercent prev - d) 0 100 \<rparr> in
      case Math_random g4 of (u, g5) \<Rightarrow>
        if u < 0.03
        then (case rand 75 100 g5 of (r, g6) \<Rightarrow>
                (prev'\<lparr> waterLevelPercent := clamp r 0 100 \<rparr>, g6))
        else (prev', g5))"

text \<open>
  The loop \<^verbatim>\<open>for (let i = 0; i < HISTORY_POINTS; i++)\<close>; \<open>clock i\<close> is what \<^verbatim>\<open>Date.now()\<close>
  returns in pass \<open>i\<close>.
\<close>

function seed_loop ::
  "(nat \<Rightarrow> int) \<Rightarrow> nat \<Rightarrow> sample \<Rightarrow> sample list \<Rightarrow> real stream \<Rightarrow> sample list \<times> real stream"
where
  "seed_loop clock i prev h g =
     (if i < HISTORY_POINTS
      then (case seed_step (clock i) i prev g of (prev', g') \<Rightarrow>
              seed_loop clock (Suc i) prev' (h @ [prev']) g')
      else (h, g))"
  by pat_completeness auto
termination
  by (relation "measure (\<lambda>(clock, i, prev, h, g). HISTORY_POINTS - i)") auto

declare seed_loop.simps [simp del]

text \<open>
  The body of the effect up to \<^verbatim>\<open>setCurrent(h[h.length - 1])\<close>. The loop makes
  \<open>HISTORY_POINTS\<close> passes, so \<open>h\<close> has a last element.
\<close>

definition mount :: "(nat \<Rightarrow> int) \<Rightarrow> app_state \<Rightarrow> real stream \<Rightarrow> app_state \<times> real stream" where
  "mount clock st g =
     (case seed_loop clock 0 (current st) [] g of (h, g') \<Rightarrow>
        (st\<lparr> history := h, current := last h \<rparr>, g'))"

text \<open>
  The updater of the Force Refill button. On a history with a last element it appends a
  copy of that element with a new water level and timestamp. On the empty history
  \<^verbatim>\<open>last\<close> is \<^verbatim>\<open>undefined\<close>, the spread copies nothing, and the object pushed has a water
  level and a timestamp only: it is not a sample, and the result is reported apart.
\<close>

record partial_sample =
  partial_timestamp :: int
  partial_waterLevelPercent :: real

definition forceRefill ::
  "int \<Rightarrow> sample list \<Rightarrow> real stream \<Rightarrow> (partial_sample + sample list) \<times> real stream" where
  "forceRefill now prev g =
     (let forced = prev in
      case rand 82 100 g of (r, g') \<Rightarrow>
        (case forced of
           [] \<Rightarrow> (Inl \<lparr> partial_timestamp = now, partial_waterLevelPercent = clamp r 0 100 \<rparr>, g')
         | _ # _ \<Rightarrow>
             (let refill = (last forced)\<lparr> waterLevelPercent := clamp r 0 100, timestamp := now \<rparr>
              in (Inr (slice_last HISTORY_POINTS (forced @ [refill])), g'))))"

text \<open>The click handler: it sets the history and nothing else.\<close>

definition click_forceRefill ::
  "int \<Rightarrow> app_state \<Rightarrow> real stream \<Rightarrow> (partial_sample + app_state) \<times> real stream" where
  "click_forceRefill now st g =
     (case forceRefill now (history st) g of
        (Inl p, g') \<Rightarrow> (Inl p, g')
      | (Inr h, g') \<Rightarrow> (Inr (st\<lparr> history := h \<rparr>), g'))"

definition click_toggleView :: "app_state \<Rightarrow> app_state" where
  "click_toggleView st = st\<lparr> modeScientific := \<not> modeScientific st \<rparr>"

text \<open>
  The events that reach the mounted component, each with the clock reading it takes, and
  the run of a sequence of them; a run ends at a history that is not a list of samples.
\<close>

datatype event = TimerTick int | ForceRefillClick int | ToggleViewClick

definition handle ::
  "sample \<Rightarrow> event \<Rightarrow> app_state \<Rightarrow> real stream \<Rightarrow> (partial_sample + app_state) \<times> real stream" where
  "handle current0 e st g =
     (case e of
        TimerTick now \<Rightarrow> (case tick current0 now st g of (st', g') \<Rightarrow> (Inr st', g'))
      | ForceRefillClick now \<Rightarrow> click_forceRefill now st g
      | ToggleViewClick \<Rightarrow> (Inr (click_toggleView st), g))"

fun run ::
  "sample \<Rightarrow> event list \<Rightarrow> app_state \<Rightarrow> real stream \<Rightarrow> (partial_sample + app_state) \<times> real stream" where
  "run current0 [] st g = (Inr st, g)"
| "run current0 (e # es) st g =
     (case handle current0 e st g of
        (Inl p, g') \<Rightarrow> (Inl p, g')
      | (Inr st', g') \<Rightarrow> run current0 es st' g')"

text \<open>
  What a render derives from the state: the statuses, the overall flag and the alerts
  from \<^verbatim>\<open>current\<close>, the four series from the history.
\<close>

record view =
  view_status :: status
  view_overallOk :: bool
  view_alerts :: "string list"
  view_pHSeries :: "real list"
  view_turbSeries :: "real list"
  view_tempSeries :: "real list"
  view_levelSeries :: "real list"

definition render :: "app_state \<Rightarrow> view" where
  "render st =
     \<lparr> view_status = status_of (current st),
       view_overallOk = overallOk (status_of (current st)),
       view_alerts = alerts (current st),
       view_pHSeries = map pH (history st),
       view_turbSeries = map turbidity (history st),
       view_tempSeries = map temperature (history st),
       view_levelSeries = map waterLevelPercent (history st) \<rparr>"

section \<open>Properties\<close>

subsection \<open>Auxiliary facts\<close>

lemma clamp_bounds: "a \<le> b \<Longrightarrow> a \<le> clamp v a b \<and> clamp v a b \<le> b"
  by (simp add: clamp_def)

lemma unit_draws_shd: "unit_draws g \<Longrightarrow> 0 \<le> shd g \<and> shd g < 1"
  unfolding unit_draws_def using snth.simps(1) by metis

lemma unit_draws_stl: "unit_draws g \<Longrightarrow> unit_draws (stl g)"
  unfolding unit_draws_def using snth.simps(2) by metis

lemma rand_fst: "fst (rand a b g) = shd g * (b - a) + a"
  by (simp add: rand_def Math_random_def)

lemma rand_snd: "snd (rand a b g) = stl g"
  by (simp add: rand_def Math_random_def)

lemma rand_range:
  assumes "unit_draws g" and "a \<le> b"
  shows "a \<le> fst (rand a b g) \<and> fst (rand a b g) \<le> b"
proof -
  from assms(1) have u: "0 \<le> shd g" "shd g \<le> 1"
    using unit_draws_shd [of g] by simp_all
  from u(1) assms(2) have "0 \<le> shd g * (b - a)"
    by simp
  moreover from u(2) assms(2) have "shd g * (b - a) \<le> 1 * (b - a)"
    by (intro mult_right_mono) simp_all
  ultimately show ?thesis
    by (simp add: rand_fst)
qed

lemma Number_toFixed_small:
  assumes "0 \<le> x" and "x < 10 ^ 21"
  shows "Number_toFixed x d = real_of_int \<lfloor>x * 10 ^ d + 1 / 2\<rfloor> / 10 ^ d"
proof -
  from assms(1) have "0 \<le> \<lfloor>x * 10 ^ d + 1 / 2\<rfloor>"
    by simp
  with assms show ?thesis
    by (simp add: Number_toFixed_def toFixed_int_def)
qed

lemma Number_toFixed_big: "10 ^ 21 \<le> \<bar>x\<bar> \<Longrightarrow> Number_toFixed x d = x"
  by (simp add: Number_toFixed_def)

lemma Number_toFixed_between:
  assumes "0 \<le> x" and "real_of_int a / 10 ^ d \<le> x" and "x \<le> real_of_int b / 10 ^ d"
  shows "real_of_int a / 10 ^ d \<le> Number_toFixed x d \<and> Number_toFixed x d \<le> real_of_int b / 10 ^ d"
proof -
  let ?y = "x * 10 ^ d + 1 / 2"
  have pos: "(0::real) < 10 ^ d" by simp
  from assms(2) have lo: "real_of_int a \<le> x * 10 ^ d"
    by (simp add: pos_divide_le_eq)
  from assms(3) have hi: "x * 10 ^ d \<le> real_of_int b"
    by (simp add: pos_le_divide_eq)
  show ?thesis
  proof (cases "x < 10 ^ 21")
    case True
    have "a \<le> \<lfloor>?y\<rfloor>" using lo by linarith
    moreover have "\<lfloor>?y\<rfloor> \<le> b" using hi by linarith
    moreover have "Number_toFixed x d = real_of_int \<lfloor>?y\<rfloor> / 10 ^ d"
      using assms(1) True by (rule Number_toFixed_small)
    ultimately show ?thesis
      by (simp add: divide_le_cancel)
  next
    case False
    with assms(1) have "10 ^ 21 \<le> \<bar>x\<bar>"
      by simp
    then have "Number_toFixed x d = x"
      by (rule Number_toFixed_big)
    with assms(2,3) show ?thesis
      by simp
  qed
qed


subsection \<open>Status of the temperature channel\<close>

text \<open>
  C3. A sample whose temperature is above the threshold 35 while pH, turbidity and water
  level are within their thresholds has temperature status "warn"; a temperature of at
  most 35 gives "ok"; the temperature status is never "bad"; and the overall flag stays
  true for such a sample, the flag being true exactly when no channel status is "bad".
\<close>

theorem temperature_warns_and_stays_safe:
  "(temperature c \<le> 35 \<longrightarrow> status_temperature (status_of c) = Ok) \<and>
   (temperature c > 35 \<longrightarrow> status_temperature (status_of c) = Warn) \<and>
   status_temperature (status_of c) \<noteq> Bad \<and>
   (overallOk (status_of c) \<longleftrightarrow> (\<forall>s \<in> set (Object_values (status_of c)). s \<noteq> Bad)) \<and>
   (temperature c > 35 \<and> 6.5 \<le> pH c \<and> pH c \<le> 8.5 \<and> turbidity c \<le> 5 \<and>
      20 \<le> waterLevelPercent c \<longrightarrow> overallOk (status_of c))"
  by (simp add: status_of_def THRESHOLDS_def overallOk_def Object_values_def)

theorem temperature_warns_and_stays_safe_witness:
  "status_temperature (status_of \<lparr> timestamp = 0, pH = 7, turbidity = 1, temperature = 40,
       waterLevelPercent = 50 \<rparr>) = Warn \<and>
   overallOk (status_of \<lparr> timestamp = 0, pH = 7, turbidity = 1, temperature = 40,
       waterLevelPercent = 50 \<rparr>)"
proof -
  let ?c = "\<lparr> timestamp = 0, pH = 7, turbidity = 1, temperature = 40,
              waterLevelPercent = 50 \<rparr>"
  have h: "temperature ?c > 35 \<and> 6.5 \<le> pH ?c \<and> pH ?c \<le> 8.5 \<and> turbidity ?c \<le> 5 \<and>
           20 \<le> waterLevelPercent ?c"
    by simp
  from temperature_warns_and_stays_safe [of ?c] h show ?thesis
    by blast
qed

subsection \<open>The tick, field by field\<close>


lemma nextPH_snd: "snd (nextPH lst g) = stl (stl g)"
  by (simp add: nextPH_def rand_def Math_random_def)

lemma nextTurb_fst:
  "fst (nextTurb lst g) =
     (if shd (stl g) < 0.015
      then clamp (clamp (turbidity lst + fst (rand (- 0.12) 0.28 g)) 0 20 +
                  fst (rand 2 6 (stl (stl g)))) 0 50
      else clamp (turbidity lst + fst (rand (- 0.12) 0.28 g)) 0 20)"
  by (simp add: nextTurb_def rand_def Math_random_def Let_def)

lemma nextTurb_snd:
  "snd (nextTurb lst g) = (if shd (stl g) < 0.015 then stl (stl (stl g)) else stl (stl g))"
  by (simp add: nextTurb_def rand_def Math_random_def Let_def)

lemma nextTemp_snd: "snd (nextTemp lst g) = stl (stl g)"
  by (simp add: nextTemp_def rand_def Math_random_def)

lemma nextLevel_snd:
  "snd (nextLevel lst g) =
     (let g4 = (if shd (stl g) < 0.06 then stl (stl (stl g)) else stl (stl g))
      in if shd g4 < 0.02 then stl (stl g4) else stl g4)"
  by (simp add: nextLevel_def rand_def Math_random_def Let_def)


lemma nextPoint_turbidity:
  "turbidity (fst (nextPoint now lst g)) = Number_toFixed (fst (nextTurb lst (snd (nextPH lst g)))) 2"
  by (simp add: nextPoint_def split_def)

lemma nextPoint_snd:
  "snd (nextPoint now lst g) =
     snd (nextLevel lst (snd (nextTemp lst (snd (nextTurb lst (snd (nextPH lst g)))))))"
  by (simp add: nextPoint_def split_def)

lemma unit_draws_nextPoint: "unit_draws g \<Longrightarrow> unit_draws (snd (nextPoint now lst g))"
  by (simp add: nextPoint_snd nextLevel_snd nextTemp_snd nextTurb_snd nextPH_snd Let_def
      unit_draws_stl)

lemma tick_current:
  "current (fst (tick current0 now st g)) =
     fst (nextPoint now (if history st = [] then current0 else last (history st)) g)"
  by (simp add: tick_def Let_def split_def)

lemma tick_history:
  "history (fst (tick current0 now st g)) =
     slice_last HISTORY_POINTS (history st @ [current (fst (tick current0 now st g))])"
  by (simp add: tick_def Let_def split_def)

lemma tick_snd:
  "snd (tick current0 now st g) =
     snd (nextPoint now (if history st = [] then current0 else last (history st)) g)"
  by (simp add: tick_def Let_def split_def)

lemma slice_last_snoc_last: "0 < n \<Longrightarrow> last (slice_last n (xs @ [x])) = x"
  by (simp add: slice_last_def)

lemma clamp_id: "a \<le> v \<Longrightarrow> v \<le> b \<Longrightarrow> clamp v a b = v"
  by (simp add: clamp_def)

lemma nextTurb_bounds:
  assumes "unit_draws g"
  shows "0 \<le> fst (nextTurb lst g) \<and> fst (nextTurb lst g) \<le> 26 \<and>
         (\<not> shd (stl g) < 0.015 \<longrightarrow> fst (nextTurb lst g) \<le> 20) \<and>
         (shd (stl g) < 0.015 \<longrightarrow> 2 \<le> fst (nextTurb lst g))"
proof -
  let ?base = "clamp (turbidity lst + fst (rand (- 0.12) 0.28 g)) 0 20"
  let ?spike = "fst (rand 2 6 (stl (stl g)))"
  have b: "0 \<le> ?base \<and> ?base \<le> 20"
    by (rule clamp_bounds) simp
  have "unit_draws (stl (stl g))"
    using assms by (simp add: unit_draws_stl)
  then have s: "2 \<le> ?spike \<and> ?spike \<le> 6"
    by (rule rand_range) simp
  from b s have "0 \<le> ?base + ?spike" "?base + ?spike \<le> 50"
    by linarith+
  then have "clamp (?base + ?spike) 0 50 = ?base + ?spike"
    by (rule clamp_id)
  with b s show ?thesis
    by (simp add: nextTurb_fst)
qed

lemma tick_turbidity_bounds:
  assumes "unit_draws g"
  shows "0 \<le> turbidity (current (fst (tick current0 now st g))) \<and>
         turbidity (current (fst (tick current0 now st g))) \<le> 26"
proof -
  let ?lst = "if history st = [] then current0 else last (history st)"
  let ?raw = "fst (nextTurb ?lst (stl (stl g)))"
  have "unit_draws (stl (stl g))"
    using assms by (simp add: unit_draws_stl)
  then have r: "0 \<le> ?raw \<and> ?raw \<le> 26"
    using nextTurb_bounds [of "stl (stl g)" ?lst] by simp
  then have "real_of_int 0 / 10 ^ 2 \<le> ?raw" "?raw \<le> real_of_int 2600 / 10 ^ 2"
    by simp_all
  with r have "real_of_int 0 / 10 ^ 2 \<le> Number_toFixed ?raw 2 \<and>
               Number_toFixed ?raw 2 \<le> real_of_int 2600 / 10 ^ 2"
    by (intro Number_toFixed_between) simp_all
  then show ?thesis
    by (simp add: tick_current nextPoint_turbidity nextPH_snd)
qed


lemma unit_draws_tick: "unit_draws g \<Longrightarrow> unit_draws (snd (tick current0 now st g))"
  by (simp add: tick_snd unit_draws_nextPoint)

lemma run_ticks_current:
  assumes step: "\<And>now st g. unit_draws g \<Longrightarrow> P (current (fst (tick current0 now st g)))"
    and "unit_draws g" and "nows \<noteq> []"
  shows "\<exists>st' g'. run current0 (map TimerTick nows) st g = (Inr st', g') \<and> P (current st')"
  using assms(2,3)
proof (induction nows arbitrary: st g)
  case Nil
  then show ?case by simp
next
  case (Cons now rest)
  let ?st1 = "fst (tick current0 now st g)"
  let ?g1 = "snd (tick current0 now st g)"
  have h: "handle current0 (TimerTick now) st g = (Inr ?st1, ?g1)"
    by (simp add: handle_def split_def)
  show ?case
  proof (cases "rest = []")
    case True
    with h step [OF Cons.prems(1)] show ?thesis by simp
  next
    case False
    have "unit_draws ?g1"
      using Cons.prems(1) by (rule unit_draws_tick)
    from Cons.IH [OF this False, of ?st1] h show ?thesis by simp
  qed
qed

subsection \<open>The next pH value\<close>



subsection \<open>The next turbidity value\<close>

text \<open>
  C1, as the code has it. On a tick, whatever the previous sample, the previous turbidity
  plus noise drawn from [-0.12, 0.28] is clamped to [0, 20]. When the draw that follows is
  below 0.015, a spike drawn from [2, 6] is added to that clamped value and the sum is
  clamped to [0, 50], which leaves it as it is. The result is rounded to two decimal places
  and stored. The stored turbidity therefore lies in [0, 26], after one tick and after any
  number of ticks, and in [0, 20] on a tick without a spike.
\<close>

theorem next_turbidity_noise_spike_clamp:
  assumes "unit_draws g"
    and "lst = (if history st = [] then captured else last (history st))"
    and "g1 = snd (nextPH lst g)"
    and "noise = fst (rand (- 0.12) 0.28 g1)"
    and "base = clamp (turbidity lst + noise) 0 20"
    and "u = fst (Math_random (stl g1))"
    and "spike = fst (rand 2 6 (stl (stl g1)))"
    and "np = current (fst (tick captured now st g))"
  shows "- 0.12 \<le> noise \<and> noise \<le> 0.28 \<and> 2 \<le> spike \<and> spike \<le> 6 \<and>
         0 \<le> base \<and> base \<le> 20 \<and>
         turbidity np =
           Number_toFixed (if u < 0.015 then clamp (base + spike) 0 50 else base) 2 \<and>
         (u < 0.015 \<longrightarrow> clamp (base + spike) 0 50 = base + spike) \<and>
         0 \<le> turbidity np \<and> turbidity np \<le> 26 \<and>
         (\<not> u < 0.015 \<longrightarrow> turbidity np \<le> 20) \<and>
         last (history (fst (tick captured now st g))) = np \<and>
         (\<forall>nows. nows \<noteq> [] \<longrightarrow>
            (\<exists>st' g'. run captured (map TimerTick nows) st g = (Inr st', g') \<and>
                       0 \<le> turbidity (current st') \<and> turbidity (current st') \<le> 26))"
proof -
  have g1: "g1 = stl (stl g)"
    by (simp add: assms(3) nextPH_snd)
  have u1: "unit_draws g1"
    using assms(1) by (simp add: g1 unit_draws_stl)
  have n: "- 0.12 \<le> noise \<and> noise \<le> 0.28"
    unfolding assms(4) using u1 by (rule rand_range) simp
  have "unit_draws (stl (stl g1))"
    using u1 by (simp add: unit_draws_stl)
  then have s: "2 \<le> spike \<and> spike \<le> 6"
    unfolding assms(7) by (rule rand_range) simp
  have b: "0 \<le> base \<and> base \<le> 20"
    unfolding assms(5) by (rule clamp_bounds) simp
  from b s have "0 \<le> base + spike" "base + spike \<le> 50"
    by linarith+
  then have c0: "clamp (base + spike) 0 50 = base + spike"
    by (rule clamp_id)
  then have c: "u < 0.015 \<longrightarrow> clamp (base + spike) 0 50 = base + spike"
    by (rule impI)
  have raw: "fst (nextTurb lst g1) = (if u < 0.015 then clamp (base + spike) 0 50 else base)"
    by (simp add: nextTurb_fst assms(4,5,6,7) Math_random_def)
  have e1: "turbidity np = Number_toFixed (fst (nextTurb lst g1)) 2"
    unfolding assms(8) assms(2) assms(3) by (simp only: tick_current nextPoint_turbidity)
  have eq: "turbidity np =
              Number_toFixed (if u < 0.015 then clamp (base + spike) 0 50 else base) 2"
    by (simp only: e1 raw)
  have t: "0 \<le> turbidity np \<and> turbidity np \<le> 26"
    unfolding assms(8) using assms(1) by (rule tick_turbidity_bounds)
  have q: "\<not> u < 0.015 \<longrightarrow> turbidity np \<le> 20"
  proof
    assume "\<not> u < 0.015"
    with eq have "turbidity np = Number_toFixed base 2"
      by simp
    moreover from b have "0 \<le> base" "real_of_int 0 / 10 ^ 2 \<le> base"
        "base \<le> real_of_int 2000 / 10 ^ 2"
      by simp_all
    then have "real_of_int 0 / 10 ^ 2 \<le> Number_toFixed base 2 \<and>
               Number_toFixed base 2 \<le> real_of_int 2000 / 10 ^ 2"
      by (rule Number_toFixed_between)
    ultimately show "turbidity np \<le> 20" by simp
  qed
  have l: "last (history (fst (tick captured now st g))) = np"
    by (simp add: assms(8) tick_history slice_last_snoc_last HISTORY_POINTS_def)
  have r: "\<forall>nows. nows \<noteq> [] \<longrightarrow>
            (\<exists>st' g'. run captured (map TimerTick nows) st g = (Inr st', g') \<and>
                       0 \<le> turbidity (current st') \<and> turbidity (current st') \<le> 26)"
    using run_ticks_current [where P = "\<lambda>s. 0 \<le> turbidity s \<and> turbidity s \<le> 26",
        OF tick_turbidity_bounds assms(1)]
    by blast
  from n s b eq c t q l r show ?thesis
    by (elim conjE, intro conjI) assumption+
qed

theorem next_turbidity_noise_spike_clamp_witness:
  "unit_draws (sconst (1 / 100)) \<and>
   0 \<le> turbidity (current (fst (tick (initial_current 0) 1800 (initial_state 0)
                                 (sconst (1 / 100))))) \<and>
   turbidity (current (fst (tick (initial_current 0) 1800 (initial_state 0)
                             (sconst (1 / 100))))) \<le> 26"
proof -
  have u: "unit_draws (sconst (1 / 100))"
    by (simp add: unit_draws_def)
  from next_turbidity_noise_spike_clamp [where captured = "initial_current 0" and now = 1800
      and st = "initial_state 0", OF u refl refl refl refl refl refl refl] u
  show ?thesis by blast
qed

text \<open>
  C1 as stated fails: from a previous turbidity of 19, with every draw equal to 0.01, the
  noise is -0.116, the spike fires and adds 2.04, and the stored turbidity is 20.92.
\<close>

theorem turbidity_above_20_counterexample:
  "unit_draws (sconst (1 / 100)) \<and>
   turbidity (current (fst (tick (initial_current 0) 1800
      \<lparr> modeScientific = False,
        history = [\<lparr> timestamp = 0, pH = 7, turbidity = 19, temperature = 28,
                     waterLevelPercent = 50 \<rparr>],
        current = \<lparr> timestamp = 0, pH = 7, turbidity = 19, temperature = 28,
                    waterLevelPercent = 50 \<rparr> \<rparr>
      (sconst (1 / 100))))) = 20.92 \<and>
   \<not> turbidity (current (fst (tick (initial_current 0) 1800
      \<lparr> modeScientific = False,
        history = [\<lparr> timestamp = 0, pH = 7, turbidity = 19, temperature = 28,
                     waterLevelPercent = 50 \<rparr>],
        current = \<lparr> timestamp = 0, pH = 7, turbidity = 19, temperature = 28,
                    waterLevelPercent = 50 \<rparr> \<rparr>
      (sconst (1 / 100))))) \<le> 20"
proof -
  let ?s = "\<lparr> timestamp = 0, pH = 7, turbidity = 19, temperature = 28,
              waterLevelPercent = 50 \<rparr>"
  let ?st = "\<lparr> modeScientific = False, history = [?s], current = ?s \<rparr>"
  let ?g = "sconst (1 / 100 :: real)"
  have u: "unit_draws ?g"
    by (simp add: unit_draws_def)
  have raw: "fst (nextTurb ?s ?g) = 20.924"
    by (simp add: nextTurb_fst rand_fst clamp_def)
  have "turbidity (current (fst (tick (initial_current 0) 1800 ?st ?g))) =
          Number_toFixed (fst (nextTurb ?s ?g)) 2"
    by (simp add: tick_current nextPoint_turbidity nextPH_snd)
  also have "\<dots> = 20.92"
    unfolding raw by (simp add: Number_toFixed_def toFixed_int_def)
  finally have v: "turbidity (current (fst (tick (initial_current 0) 1800 ?st ?g))) = 20.92" .
  show ?thesis
    unfolding v using u by simp
qed

subsection \<open>The bounded history\<close>

lemma slice_last_length: "length (slice_last n xs) = min n (length xs)"
  by (simp add: slice_last_def)

lemma slice_last_suffix: "suffix (slice_last n xs) xs"
  by (simp add: slice_last_def suffix_drop)

lemma slice_last_snoc: "0 < n \<Longrightarrow> slice_last n (xs @ [x]) = drop (length xs + 1 - n) xs @ [x]"
  by (simp add: slice_last_def)

lemma slice_last_snoc_full:
  assumes "length xs = n" and "0 < n"
  shows "slice_last n (xs @ [x]) = tl xs @ [x]"
proof -
  from assms have "drop (length xs + 1 - n) xs = tl xs"
    by (simp add: drop_Suc)
  with assms(2) show ?thesis
    by (simp add: slice_last_snoc)
qed

lemma seed_loop_length:
  "i \<le> HISTORY_POINTS \<Longrightarrow>
     length (fst (seed_loop clock i prev h g)) = length h + (HISTORY_POINTS - i)"
proof (induction clock i prev h g rule: seed_loop.induct)
  case (1 clock i prev h g)
  show ?case
  proof (cases "i < HISTORY_POINTS")
    case True
    obtain prev' g' where s: "seed_step (clock i) i prev g = (prev', g')"
      by (cases "seed_step (clock i) i prev g")
    from True have "Suc i \<le> HISTORY_POINTS" by simp
    from "1.IH" [OF True s [symmetric] this] True s show ?thesis
      by (subst seed_loop.simps) simp
  next
    case False
    with "1.prems" show ?thesis
      by (subst seed_loop.simps) simp
  qed
qed

lemma seed_loop_prefix: "prefix h (fst (seed_loop clock i prev h g))"
proof (induction clock i prev h g rule: seed_loop.induct)
  case (1 clock i prev h g)
  show ?case
  proof (cases "i < HISTORY_POINTS")
    case True
    obtain prev' g' where s: "seed_step (clock i) i prev g = (prev', g')"
      by (cases "seed_step (clock i) i prev g")
    from "1.IH" [OF True s [symmetric]] have "prefix (h @ [prev']) (fst (seed_loop clock (Suc i) prev' (h @ [prev']) g'))" .
    then have "prefix h (fst (seed_loop clock (Suc i) prev' (h @ [prev']) g'))"
      by (rule append_prefixD)
    with True s show ?thesis
      by (subst seed_loop.simps) simp
  next
    case False
    then show ?thesis
      by (subst seed_loop.simps) simp
  qed
qed

lemma mount_history_length: "length (history (fst (mount clock st g))) = HISTORY_POINTS"
  using seed_loop_length [of 0 clock "current st" "[]" g]
  by (simp add: mount_def split_def)

lemma mount_current: "current (fst (mount clock st g)) = last (history (fst (mount clock st g)))"
  by (simp add: mount_def split_def)

lemma tick_history_length:
  "length (history (fst (tick captured now st g))) = min HISTORY_POINTS (length (history st) + 1)"
  by (simp add: tick_history slice_last_length)

lemma forceRefill_fst:
  "fst (forceRefill now h g) =
     (if h = []
      then Inl \<lparr> partial_timestamp = now,
                 partial_waterLevelPercent = clamp (fst (rand 82 100 g)) 0 100 \<rparr>
      else Inr (slice_last HISTORY_POINTS
                  (h @ [(last h)\<lparr> waterLevelPercent := clamp (fst (rand 82 100 g)) 0 100,
                                  timestamp := now \<rparr>])))"
  by (cases h) (simp_all add: forceRefill_def Let_def split_def)

lemma forceRefill_snd: "snd (forceRefill now h g) = stl g"
  by (cases h) (simp_all add: forceRefill_def Let_def split_def rand_snd)

lemma click_forceRefill_fst:
  "fst (click_forceRefill now st g) =
     (case fst (forceRefill now (history st) g) of
        Inl p \<Rightarrow> Inl p
      | Inr h \<Rightarrow> Inr (st\<lparr> history := h \<rparr>))"
  by (cases "forceRefill now (history st) g"; cases "fst (forceRefill now (history st) g)")
     (simp_all add: click_forceRefill_def)

lemma click_forceRefill_snd: "snd (click_forceRefill now st g) = stl g"
  using forceRefill_snd [of now "history st" g]
  by (cases "forceRefill now (history st) g"; cases "fst (forceRefill now (history st) g)")
     (simp_all add: click_forceRefill_def)

lemma handle_keeps_full:
  assumes "length (history st) = HISTORY_POINTS"
  shows "\<exists>st'. fst (handle captured e st g) = Inr st' \<and> length (history st') = HISTORY_POINTS"
proof (cases e)
  case (TimerTick now)
  with assms show ?thesis
    by (simp add: handle_def split_def tick_history_length)
next
  case (ForceRefillClick now)
  from assms have "history st \<noteq> []"
    by (auto simp: HISTORY_POINTS_def)
  with assms ForceRefillClick show ?thesis
    by (simp add: handle_def click_forceRefill_fst forceRefill_fst slice_last_length)
next
  case ToggleViewClick
  with assms show ?thesis
    by (simp add: handle_def click_toggleView_def)
qed

lemma run_keeps_full:
  "length (history st) = HISTORY_POINTS \<Longrightarrow>
     \<exists>st' g'. run captured es st g = (Inr st', g') \<and> length (history st') = HISTORY_POINTS"
proof (induction es arbitrary: st g)
  case Nil
  then show ?case by simp
next
  case (Cons e es)
  from handle_keeps_full [OF Cons.prems, of captured e g]
  obtain st1 where h: "fst (handle captured e st g) = Inr st1"
    and l: "length (history st1) = HISTORY_POINTS"
    by blast
  from h obtain g1 where "handle captured e st g = (Inr st1, g1)"
    by (cases "handle captured e st g") simp
  with Cons.IH [OF l, of g1] show ?case
    by simp
qed


text \<open>
  C2. The history never holds more than 40 samples. The seeding loop appends to its array
  and ends with exactly 40 entries. A tick and a forced refill each append one sample and
  keep the last 40, so the result is the old history without its oldest entries, in the
  same order, followed by the new sample; on a full history exactly the oldest entry is
  dropped. Every sequence of ticks, forced refills and view toggles that follows the
  seeding keeps the length at 40.
\<close>

theorem history_capacity_fifo:
  "HISTORY_POINTS = 40 \<and>
   (i \<le> HISTORY_POINTS \<longrightarrow>
      length (fst (seed_loop clock i prev h g0)) = length h + (HISTORY_POINTS - i) \<and>
      prefix h (fst (seed_loop clock i prev h g0))) \<and>
   length (history (fst (mount clock st0 g0))) = HISTORY_POINTS \<and>
   length (history (fst (tick captured now st g))) =
     min HISTORY_POINTS (length (history st) + 1) \<and>
   history (fst (tick captured now st g)) =
     drop (length (history st) + 1 - HISTORY_POINTS) (history st) @
       [current (fst (tick captured now st g))] \<and>
   (length (history st) = HISTORY_POINTS \<longrightarrow>
      history (fst (tick captured now st g)) =
        tl (history st) @ [current (fst (tick captured now st g))]) \<and>
   (history st \<noteq> [] \<longrightarrow>
      (\<exists>r. fst (forceRefill now (history st) g) =
             Inr (drop (length (history st) + 1 - HISTORY_POINTS) (history st) @ [r]) \<and>
           length (drop (length (history st) + 1 - HISTORY_POINTS) (history st) @ [r]) =
             min HISTORY_POINTS (length (history st) + 1) \<and>
           (length (history st) = HISTORY_POINTS \<longrightarrow>
              drop (length (history st) + 1 - HISTORY_POINTS) (history st) = tl (history st)))) \<and>
   (\<forall>es. \<exists>st' g'. run captured es (fst (mount clock st0 g0)) g = (Inr st', g') \<and>
                    length (history st') = HISTORY_POINTS)"
proof -
  have pos: "0 < HISTORY_POINTS"
    by (simp add: HISTORY_POINTS_def)
  have c1: "HISTORY_POINTS = 40"
    by (simp add: HISTORY_POINTS_def)
  have c2: "i \<le> HISTORY_POINTS \<longrightarrow>
      length (fst (seed_loop clock i prev h g0)) = length h + (HISTORY_POINTS - i) \<and>
      prefix h (fst (seed_loop clock i prev h g0))"
    by (simp add: seed_loop_length seed_loop_prefix)
  have c3: "length (history (fst (mount clock st0 g0))) = HISTORY_POINTS"
    by (rule mount_history_length)
  have c4: "length (history (fst (tick captured now st g))) =
     min HISTORY_POINTS (length (history st) + 1)"
    by (rule tick_history_length)
  have c5: "history (fst (tick captured now st g)) =
     drop (length (history st) + 1 - HISTORY_POINTS) (history st) @
       [current (fst (tick captured now st g))]"
    by (subst tick_history) (simp only: slice_last_snoc [OF pos])
  have c6: "length (history st) = HISTORY_POINTS \<longrightarrow>
      history (fst (tick captured now st g)) =
        tl (history st) @ [current (fst (tick captured now st g))]"
    by (subst tick_history) (simp add: slice_last_snoc_full pos)
  have c7: "history st \<noteq> [] \<longrightarrow>
      (\<exists>r. fst (forceRefill now (history st) g) =
             Inr (drop (length (history st) + 1 - HISTORY_POINTS) (history st) @ [r]) \<and>
           length (drop (length (history st) + 1 - HISTORY_POINTS) (history st) @ [r]) =
             min HISTORY_POINTS (length (history st) + 1) \<and>
           (length (history st) = HISTORY_POINTS \<longrightarrow>
              drop (length (history st) + 1 - HISTORY_POINTS) (history st) = tl (history st)))"
  proof
    assume ne: "history st \<noteq> []"
    let ?r = "(last (history st))\<lparr> waterLevelPercent := clamp (fst (rand 82 100 g)) 0 100,
                                   timestamp := now \<rparr>"
    have "fst (forceRefill now (history st) g) =
            Inr (drop (length (history st) + 1 - HISTORY_POINTS) (history st) @ [?r])"
      using ne by (simp add: forceRefill_fst slice_last_snoc [OF pos])
    moreover have "length (drop (length (history st) + 1 - HISTORY_POINTS) (history st) @ [?r]) =
             min HISTORY_POINTS (length (history st) + 1)"
      using pos by auto
    moreover have "length (history st) = HISTORY_POINTS \<longrightarrow>
              drop (length (history st) + 1 - HISTORY_POINTS) (history st) = tl (history st)"
      by (simp add: drop_Suc)
    ultimately show "\<exists>r. fst (forceRefill now (history st) g) =
             Inr (drop (length (history st) + 1 - HISTORY_POINTS) (history st) @ [r]) \<and>
           length (drop (length (history st) + 1 - HISTORY_POINTS) (history st) @ [r]) =
             min HISTORY_POINTS (length (history st) + 1) \<and>
           (length (history st) = HISTORY_POINTS \<longrightarrow>
              drop (length (history st) + 1 - HISTORY_POINTS) (history st) = tl (history st))"
      by blast
  qed
  have c8: "\<forall>es. \<exists>st' g'. run captured es (fst (mount clock st0 g0)) g = (Inr st', g') \<and>
                    length (history st') = HISTORY_POINTS"
    using run_keeps_full [OF mount_history_length] by blast
  from c1 c2 c3 c4 c5 c6 c7 c8 show ?thesis
    by (intro conjI) assumption+
qed

theorem history_capacity_fifo_witness:
  "length (history (fst (tick (initial_current 0) 1800
             (fst (mount (\<lambda>i. 0) (initial_state 0) (sconst (1 / 2)))) (sconst (1 / 2))))) = 40 \<and>
   history (fst (tick (initial_current 0) 1800
             (fst (mount (\<lambda>i. 0) (initial_state 0) (sconst (1 / 2)))) (sconst (1 / 2)))) =
     tl (history (fst (mount (\<lambda>i. 0) (initial_state 0) (sconst (1 / 2))))) @
       [current (fst (tick (initial_current 0) 1800
             (fst (mount (\<lambda>i. 0) (initial_state 0) (sconst (1 / 2)))) (sconst (1 / 2))))]"
proof -
  let ?m = "fst (mount (\<lambda>i. 0) (initial_state 0) (sconst (1 / 2 :: real)))"
  note t = history_capacity_fifo [where st = ?m and clock = "\<lambda>i. 0" and ?st0.0 = "initial_state 0"
      and ?g0.0 = "sconst (1 / 2)" and captured = "initial_current 0" and now = 1800
      and g = "sconst (1 / 2)" and i = 0 and h = "[]"]
  from t have full: "length (history ?m) = HISTORY_POINTS"
    by blast
  from t have "HISTORY_POINTS = 40"
    by blast
  moreover from t have "length (history (fst (tick (initial_current 0) 1800 ?m (sconst (1 / 2))))) =
      min HISTORY_POINTS (length (history ?m) + 1)"
    by blast
  moreover from t full have "history (fst (tick (initial_current 0) 1800 ?m (sconst (1 / 2)))) =
     tl (history ?m) @ [current (fst (tick (initial_current 0) 1800 ?m (sconst (1 / 2))))]"
    by blast
  ultimately show ?thesis
    using full by simp
qed


subsection \<open>The forced refill\<close>

text \<open>
  C8. For every history, the forced refill appends one entry whose water level is drawn
  from [82, 100] and whose timestamp is the clock reading of the click. When the history
  has a last element, pH, turbidity and temperature of the new entry are copied from it,
  and the entries before the new one are the entries of the old history that the
  truncation to 40 keeps, unchanged and in place. On the empty history there is no last
  element to copy from and no earlier entry: the object appended carries the water level
  and the timestamp only.
\<close>

theorem forced_refill_frame:
  assumes "unit_draws g"
  shows "(h = [] \<longrightarrow>
            (\<exists>lvl. fst (forceRefill now h g) =
                     Inl \<lparr> partial_timestamp = now, partial_waterLevelPercent = lvl \<rparr> \<and>
                   82 \<le> lvl \<and> lvl \<le> 100)) \<and>
         (h \<noteq> [] \<longrightarrow>
            (\<exists>r k. k = length h + 1 - HISTORY_POINTS \<and>
                   fst (forceRefill now h g) = Inr (drop k h @ [r]) \<and>
                   (\<forall>j < length h - k. (drop k h @ [r]) ! j = h ! (k + j)) \<and>
                   waterLevelPercent r = fst (rand 82 100 g) \<and>
                   82 \<le> waterLevelPercent r \<and> waterLevelPercent r \<le> 100 \<and>
                   pH r = pH (last h) \<and> turbidity r = turbidity (last h) \<and>
                   temperature r = temperature (last h) \<and> timestamp r = now))"
proof -
  let ?lvl = "fst (rand 82 100 g)"
  have pos: "0 < HISTORY_POINTS"
    by (simp add: HISTORY_POINTS_def)
  have b: "82 \<le> ?lvl \<and> ?lvl \<le> 100"
    using assms by (rule rand_range) simp
  then have "0 \<le> ?lvl" "?lvl \<le> 100"
    by simp_all
  then have c: "clamp ?lvl 0 100 = ?lvl"
    by (rule clamp_id)
  have e: "h = [] \<longrightarrow>
            (\<exists>lvl. fst (forceRefill now h g) =
                     Inl \<lparr> partial_timestamp = now, partial_waterLevelPercent = lvl \<rparr> \<and>
                   82 \<le> lvl \<and> lvl \<le> 100)"
    using b by (simp add: forceRefill_fst c)
  have n: "h \<noteq> [] \<longrightarrow>
            (\<exists>r k. k = length h + 1 - HISTORY_POINTS \<and>
                   fst (forceRefill now h g) = Inr (drop k h @ [r]) \<and>
                   (\<forall>j < length h - k. (drop k h @ [r]) ! j = h ! (k + j)) \<and>
                   waterLevelPercent r = fst (rand 82 100 g) \<and>
                   82 \<le> waterLevelPercent r \<and> waterLevelPercent r \<le> 100 \<and>
                   pH r = pH (last h) \<and> turbidity r = turbidity (last h) \<and>
                   temperature r = temperature (last h) \<and> timestamp r = now)"
  proof
    assume ne: "h \<noteq> []"
    let ?k = "length h + 1 - HISTORY_POINTS"
    let ?r = "(last h)\<lparr> waterLevelPercent := ?lvl, timestamp := now \<rparr>"
    have 1: "fst (forceRefill now h g) = Inr (drop ?k h @ [?r])"
      using ne by (simp add: forceRefill_fst c slice_last_snoc [OF pos])
    have 2: "\<forall>j < length h - ?k. (drop ?k h @ [?r]) ! j = h ! (?k + j)"
      by (simp add: nth_append)
    have 3: "waterLevelPercent ?r = ?lvl \<and> pH ?r = pH (last h) \<and>
             turbidity ?r = turbidity (last h) \<and> temperature ?r = temperature (last h) \<and>
             timestamp ?r = now"
      by simp
    from 1 2 3 b
    show "\<exists>r k. k = length h + 1 - HISTORY_POINTS \<and>
                   fst (forceRefill now h g) = Inr (drop k h @ [r]) \<and>
                   (\<forall>j < length h - k. (drop k h @ [r]) ! j = h ! (k + j)) \<and>
                   waterLevelPercent r = fst (rand 82 100 g) \<and>
                   82 \<le> waterLevelPercent r \<and> waterLevelPercent r \<le> 100 \<and>
                   pH r = pH (last h) \<and> turbidity r = turbidity (last h) \<and>
                   temperature r = temperature (last h) \<and> timestamp r = now"
      by (intro exI [of _ ?r] exI [of _ ?k]) simp
  qed
  from e n show ?thesis
    by (rule conjI)
qed

theorem forced_refill_frame_witness:
  "unit_draws (sconst (1 / 2)) \<and>
   (\<exists>r. fst (forceRefill 1800 [initial_current 0, initial_current 1] (sconst (1 / 2))) =
          Inr ([initial_current 0, initial_current 1] @ [r]) \<and>
        82 \<le> waterLevelPercent r \<and> waterLevelPercent r \<le> 100 \<and>
        pH r = pH (initial_current 1))"
proof -
  have u: "unit_draws (sconst (1 / 2))"
    by (simp add: unit_draws_def)
  have k: "length [initial_current 0, initial_current 1] + 1 - HISTORY_POINTS = 0"
    by (simp add: HISTORY_POINTS_def)
  from forced_refill_frame [OF u, of "[initial_current 0, initial_current 1]" 1800]
  obtain r where "fst (forceRefill 1800 [initial_current 0, initial_current 1] (sconst (1 / 2))) =
          Inr (drop (length [initial_current 0, initial_current 1] + 1 - HISTORY_POINTS)
                 [initial_current 0, initial_current 1] @ [r])"
    and "82 \<le> waterLevelPercent r" and "waterLevelPercent r \<le> 100"
    and "pH r = pH (last [initial_current 0, initial_current 1])"
    by blast
  with u show ?thesis
    unfolding k by auto
qed

text \<open>
  C9. A forced refill on a history with a last element changes the history and nothing
  else: \<open>current\<close> is the sample it was, so the statuses, the overall flag and the alerts
  of the next render are those of the render before, although the last entry of the
  history is now the refill sample. The next tick computes its sample from that last entry
  and makes it the new \<open>current\<close>.
\<close>

theorem forced_refill_keeps_current:
  "history st \<noteq> [] \<longrightarrow>
     (\<exists>h'. fst (forceRefill now (history st) g) = Inr h' \<and>
           fst (click_forceRefill now st g) = Inr (st\<lparr> history := h' \<rparr>) \<and>
           current (st\<lparr> history := h' \<rparr>) = current st \<and>
           modeScientific (st\<lparr> history := h' \<rparr>) = modeScientific st \<and>
           view_status (render (st\<lparr> history := h' \<rparr>)) = view_status (render st) \<and>
           view_overallOk (render (st\<lparr> history := h' \<rparr>)) = view_overallOk (render st) \<and>
           view_alerts (render (st\<lparr> history := h' \<rparr>)) = view_alerts (render st) \<and>
           last h' = (last (history st))\<lparr> waterLevelPercent := clamp (fst (rand 82 100 g)) 0 100,
                                         timestamp := now \<rparr> \<and>
           current (fst (tick captured now' (st\<lparr> history := h' \<rparr>) g')) =
             fst (nextPoint now' (last h') g'))"
proof
  assume ne: "history st \<noteq> []"
  have pos: "0 < HISTORY_POINTS"
    by (simp add: HISTORY_POINTS_def)
  let ?r = "(last (history st))\<lparr> waterLevelPercent := clamp (fst (rand 82 100 g)) 0 100,
                                 timestamp := now \<rparr>"
  let ?h = "slice_last HISTORY_POINTS (history st @ [?r])"
  have 1: "fst (forceRefill now (history st) g) = Inr ?h"
    using ne by (simp add: forceRefill_fst)
  have 2: "fst (click_forceRefill now st g) = Inr (st\<lparr> history := ?h \<rparr>)"
    by (simp add: click_forceRefill_fst 1)
  have 3: "last ?h = ?r"
    using pos by (rule slice_last_snoc_last)
  have "?h \<noteq> []"
    using pos by (simp add: slice_last_snoc)
  then have 4: "current (fst (tick captured now' (st\<lparr> history := ?h \<rparr>) g')) =
             fst (nextPoint now' (last ?h) g')"
    by (simp add: tick_current)
  have 5: "current (st\<lparr> history := ?h \<rparr>) = current st \<and>
           modeScientific (st\<lparr> history := ?h \<rparr>) = modeScientific st \<and>
           view_status (render (st\<lparr> history := ?h \<rparr>)) = view_status (render st) \<and>
           view_overallOk (render (st\<lparr> history := ?h \<rparr>)) = view_overallOk (render st) \<and>
           view_alerts (render (st\<lparr> history := ?h \<rparr>)) = view_alerts (render st)"
    by (simp add: render_def)
  from 1 2 3 4 5
  show "\<exists>h'. fst (forceRefill now (history st) g) = Inr h' \<and>
           fst (click_forceRefill now st g) = Inr (st\<lparr> history := h' \<rparr>) \<and>
           current (st\<lparr> history := h' \<rparr>) = current st \<and>
           modeScientific (st\<lparr> history := h' \<rparr>) = modeScientific st \<and>
           view_status (render (st\<lparr> history := h' \<rparr>)) = view_status (render st) \<and>
           view_overallOk (render (st\<lparr> history := h' \<rparr>)) = view_overallOk (render st) \<and>
           view_alerts (render (st\<lparr> history := h' \<rparr>)) = view_alerts (render st) \<and>
           last h' = (last (history st))\<lparr> waterLevelPercent := clamp (fst (rand 82 100 g)) 0 100,
                                         timestamp := now \<rparr> \<and>
           current (fst (tick captured now' (st\<lparr> history := h' \<rparr>) g')) =
             fst (nextPoint now' (last h') g')"
    by (intro exI [of _ ?h]) (simp only: simp_thms)
qed

theorem forced_refill_keeps_current_witness:
  "(\<exists>st'. fst (click_forceRefill 1800
              \<lparr> modeScientific = False, history = [initial_current 0],
                current = initial_current 0 \<rparr> (sconst (1 / 2))) = Inr st' \<and>
          current st' = initial_current 0 \<and>
          waterLevelPercent (current st') = 78.5 \<and>
          waterLevelPercent (last (history st')) = 91)"
proof -
  let ?st = "\<lparr> modeScientific = False, history = [initial_current 0],
               current = initial_current 0 \<rparr>"
  have ne: "history ?st \<noteq> []"
    by simp
  have lvl: "clamp (fst (rand 82 100 (sconst (1 / 2)))) 0 100 = 91"
    by (simp add: rand_fst clamp_def)
  from forced_refill_keeps_current [of ?st 1800 "sconst (1 / 2)"] ne
  obtain h' where "fst (click_forceRefill 1800 ?st (sconst (1 / 2))) = Inr (?st\<lparr> history := h' \<rparr>)"
    and "current (?st\<lparr> history := h' \<rparr>) = current ?st"
    and "last h' = (last (history ?st))\<lparr> waterLevelPercent :=
            clamp (fst (rand 82 100 (sconst (1 / 2)))) 0 100, timestamp := 1800 \<rparr>"
    by blast
  then show ?thesis
    unfolding lvl by (intro exI [of _ "?st\<lparr> history := h' \<rparr>"]) (simp add: initial_current_def)
qed


subsection \<open>Alerts and the purity of the evaluation\<close>

lemma digits_small: "n < 10 \<Longrightarrow> digits n = [digit_char n]"
  by (simp add: digits.simps)

lemma digits_step: "10 \<le> n \<Longrightarrow> digits n = digits (n div 10) @ [digit_char n]"
  by (subst digits.simps) simp

lemma fraction_places_numeral:
  "fraction_places (numeral n) k x =
     (if whole (x * 10 ^ k) then k else fraction_places (pred_numeral n) (Suc k) x)"
  by (simp add: numeral_eq_Suc)

lemma tz_stop: "n = 0 \<or> n mod 10 \<noteq> 0 \<Longrightarrow> trailing_zeros n = 0"
  by (subst trailing_zeros.simps) simp

lemma tz_step: "n \<noteq> 0 \<Longrightarrow> n mod 10 = 0 \<Longrightarrow> trailing_zeros n = Suc (trailing_zeros (n div 10))"
  by (subst trailing_zeros.simps) simp

lemmas print_simps = whole_def Number_toString_def decimal_body_def fraction_places_numeral
  tz_stop tz_step digits_small digits_step digit_char_def scientific_def exponent_part_def Let_def

lemmas read_simps = decimal_value_def unsigned_value_def mantissa_value_def nat_of_digits_def
  digit_val_def

lemma digit_table:
  assumes "m \<in> {0, 1, 2, 3, 4, 5, 6, 7, 8, 9 :: nat}"
  shows "digit_val (''0123456789'' ! m) = m \<and> ''0123456789'' ! m \<in> set ''0123456789''"
  using assms by (auto simp: digit_val_def)

lemma mod_10_cases: "n mod 10 \<in> {0, 1, 2, 3, 4, 5, 6, 7, 8, 9 :: nat}"
proof -
  have "n mod 10 < 10"
    by simp
  then show ?thesis
    by (simp only: insert_iff empty_iff) arith
qed

lemma digit_val_digit_char: "digit_val (digit_char n) = n mod 10"
  using digit_table [OF mod_10_cases [of n]] by (simp add: digit_char_def)

lemma digit_char_in: "digit_char n \<in> set ''0123456789''"
  using digit_table [OF mod_10_cases [of n]] by (simp only: digit_char_def)

lemma digit_string_digits: "digit_string (digits n)"
proof (induction n rule: digits.induct)
  case (1 n)
  show ?case
  proof (cases "n < 10")
    case True
    then show ?thesis
      using digit_char_in [of n] by (simp add: digits_small digit_string_def)
  next
    case False
    with "1.IH" show ?thesis
      using digit_char_in [of n] by (simp add: digits_step digit_string_def)
  qed
qed

lemma digits_nonempty: "digits n \<noteq> []"
  by (subst digits.simps) simp

lemma foldl_digits_acc:
  "foldl (\<lambda>a c. 10 * a + digit_val c) acc s =
     acc * 10 ^ length s + foldl (\<lambda>a c. 10 * a + digit_val c) 0 s"
proof (induction s arbitrary: acc)
  case Nil
  then show ?case by simp
next
  case (Cons c s)
  from Cons.IH [of "10 * acc + digit_val c"] Cons.IH [of "digit_val c"]
  show ?case
    by (simp add: algebra_simps)
qed

lemma nat_of_digits_append:
  "nat_of_digits (a @ b) = nat_of_digits a * 10 ^ length b + nat_of_digits b"
  unfolding nat_of_digits_def foldl_append by (rule foldl_digits_acc)

lemma nat_of_digits_single: "nat_of_digits [digit_char n] = n mod 10"
  by (simp add: nat_of_digits_def digit_val_digit_char)

lemma nat_of_digits_digits: "nat_of_digits (digits n) = n"
proof (induction n rule: digits.induct)
  case (1 n)
  show ?case
  proof (cases "n < 10")
    case True
    then show ?thesis
      by (simp add: digits_small nat_of_digits_single)
  next
    case False
    with "1.IH" show ?thesis
      by (simp add: digits_step nat_of_digits_append nat_of_digits_single)
  qed
qed

lemma nat_of_digits_zeros: "nat_of_digits (replicate m (CHR ''0'')) = 0"
  by (induction m) (simp_all add: nat_of_digits_def digit_val_def)

lemma digit_string_zeros: "digit_string (replicate m (CHR ''0''))"
  by (auto simp: digit_string_def)

lemma digit_string_append: "digit_string (a @ b) \<longleftrightarrow> digit_string a \<and> digit_string b"
  by (auto simp: digit_string_def)

lemma digit_string_take: "digit_string s \<Longrightarrow> digit_string (take i s)"
  unfolding digit_string_def using set_take_subset by fastforce

lemma digit_string_drop: "digit_string s \<Longrightarrow> digit_string (drop i s)"
  unfolding digit_string_def using set_drop_subset by fastforce

lemma digit_string_no_mark:
  assumes "digit_string s" and "c \<in> set s"
  shows "c \<noteq> CHR ''.'' \<and> c \<noteq> CHR ''e'' \<and> c \<noteq> CHR ''-'' \<and> c \<noteq> CHR ''+''"
  using assms by (auto simp: digit_string_def)

lemma mantissa_value_digits:
  assumes "digit_string s"
  shows "mantissa_value s = real (nat_of_digits s)"
proof -
  have "\<forall>c \<in> set s. c \<noteq> CHR ''.''"
    using assms digit_string_no_mark by blast
  then have tw: "takeWhile (\<lambda>c. c \<noteq> CHR ''.'') s = s"
    and dw: "dropWhile (\<lambda>c. c \<noteq> CHR ''.'') s = []"
    by simp_all
  show ?thesis
    unfolding mantissa_value_def Let_def tw dw by (simp add: nat_of_digits_def)
qed

lemma mantissa_value_point:
  assumes "digit_string a" and "digit_string b"
  shows "mantissa_value (a @ ''.'' @ b) =
           real (nat_of_digits a) + real (nat_of_digits b) / 10 ^ length b"
proof -
  have "\<forall>c \<in> set a. c \<noteq> CHR ''.''"
    using assms(1) digit_string_no_mark by blast
  then have tw: "takeWhile (\<lambda>c. c \<noteq> CHR ''.'') (a @ ''.'' @ b) = a"
    and dw: "dropWhile (\<lambda>c. c \<noteq> CHR ''.'') (a @ ''.'' @ b) = ''.'' @ b"
    by (simp_all add: takeWhile_append dropWhile_append)
  show ?thesis
    unfolding mantissa_value_def Let_def tw dw by simp
qed

lemma mantissa_value_split:
  assumes "digit_string p" and "i \<le> length p"
  shows "mantissa_value (take i p @ ''.'' @ drop i p) =
           real (nat_of_digits p) / 10 ^ (length p - i)"
proof -
  have "nat_of_digits p = nat_of_digits (take i p @ drop i p)"
    by simp
  also have "\<dots> = nat_of_digits (take i p) * 10 ^ (length p - i) + nat_of_digits (drop i p)"
    by (simp only: nat_of_digits_append length_drop)
  finally have "real (nat_of_digits p) / 10 ^ (length p - i) =
      real (nat_of_digits (take i p)) + real (nat_of_digits (drop i p)) / 10 ^ (length p - i)"
    by (simp add: add_divide_distrib)
  moreover have "mantissa_value (take i p @ ''.'' @ drop i p) =
      real (nat_of_digits (take i p)) +
      real (nat_of_digits (drop i p)) / 10 ^ length (drop i p)"
    using assms(1) by (intro mantissa_value_point digit_string_take digit_string_drop)
  ultimately show ?thesis
    by simp
qed

lemma unsigned_value_plain:
  assumes "CHR ''e'' \<notin> set s"
  shows "unsigned_value s = mantissa_value s"
proof -
  from assms have "\<forall>c \<in> set s. c \<noteq> CHR ''e''"
    by blast
  then have tw: "takeWhile (\<lambda>c. c \<noteq> CHR ''e'') s = s"
    and dw: "dropWhile (\<lambda>c. c \<noteq> CHR ''e'') s = []"
    by simp_all
  show ?thesis
    unfolding unsigned_value_def Let_def tw dw by simp
qed

lemma unsigned_value_exponent:
  assumes "CHR ''e'' \<notin> set m"
  shows "unsigned_value (m @ exponent_part negative e) =
           mantissa_value m * (if negative then 1 / 10 ^ e else 10 ^ e)"
proof -
  let ?sg = "if negative then CHR ''-'' else CHR ''+''"
  have ex: "exponent_part negative e = CHR ''e'' # ?sg # digits e"
    by (simp add: exponent_part_def)
  from assms have "\<forall>c \<in> set m. c \<noteq> CHR ''e''"
    by blast
  then have tw: "takeWhile (\<lambda>c. c \<noteq> CHR ''e'') (m @ CHR ''e'' # ?sg # digits e) = m"
    and dw: "dropWhile (\<lambda>c. c \<noteq> CHR ''e'') (m @ CHR ''e'' # ?sg # digits e) =
               CHR ''e'' # ?sg # digits e"
    by (simp_all add: takeWhile_append dropWhile_append)
  show ?thesis
    unfolding unsigned_value_def Let_def ex tw dw by (simp add: nat_of_digits_digits)
qed

lemma decimal_value_unsigned:
  assumes "s \<noteq> []" and "hd s \<noteq> CHR ''-''"
  shows "decimal_value s = unsigned_value s"
  using assms by (cases s) (simp_all add: decimal_value_def)

lemma decimal_value_minus: "decimal_value (''-'' @ r) = - unsigned_value r"
  by (simp add: decimal_value_def)

lemma digit_string_no_e: "digit_string s \<Longrightarrow> CHR ''e'' \<notin> set s"
  using digit_string_no_mark by blast

lemma digit_string_hd: "digit_string s \<Longrightarrow> s \<noteq> [] \<Longrightarrow> hd s \<noteq> CHR ''-''"
  using digit_string_no_mark [of s "hd s"] by simp

lemma pointed_no_e:
  "digit_string a \<Longrightarrow> digit_string b \<Longrightarrow> CHR ''e'' \<notin> set (a @ ''.'' @ b)"
  using digit_string_no_e [of a] digit_string_no_e [of b] by simp

lemma scientific_value:
  assumes "digit_string ds" and "ds \<noteq> []"
  shows "mantissa_value (scientific ds) = real (nat_of_digits ds) / 10 ^ (length ds - 1)"
proof (cases "length ds = 1")
  case True
  with assms show ?thesis
    by (simp add: scientific_def mantissa_value_digits)
next
  case False
  from assms(2) have "1 \<le> length ds"
    by (cases ds) simp_all
  with False assms(1) show ?thesis
    using mantissa_value_split [of ds 1] by (simp add: scientific_def)
qed

lemma scientific_no_e: "digit_string ds \<Longrightarrow> CHR ''e'' \<notin> set (scientific ds)"
  using pointed_no_e [of "take 1 ds" "drop 1 ds"] digit_string_no_e [of ds]
  by (simp add: scientific_def digit_string_take digit_string_drop)

lemma scientific_hd:
  assumes "digit_string ds" and "ds \<noteq> []"
  shows "scientific ds \<noteq> [] \<and> hd (scientific ds) \<noteq> CHR ''-''"
proof -
  from assms(2) obtain c cs where ds: "ds = c # cs"
    by (cases ds) auto
  with assms(1) have "c \<noteq> CHR ''-''"
    using digit_string_hd [of ds] by simp
  with ds show ?thesis
    by (simp add: scientific_def)
qed

lemma trailing_zeros_dvd: "10 ^ trailing_zeros n dvd n"
proof (induction n rule: trailing_zeros.induct)
  case (1 n)
  show ?case
  proof (cases "n = 0 \<or> n mod 10 \<noteq> 0")
    case True
    then show ?thesis
      by (simp add: tz_stop)
  next
    case False
    then have n: "n \<noteq> 0" "n mod 10 = 0"
      by simp_all
    from "1.IH" False have "10 ^ trailing_zeros (n div 10) dvd n div 10"
      by simp
    then have "10 * 10 ^ trailing_zeros (n div 10) dvd 10 * (n div 10)"
      by (rule mult_dvd_mono [OF dvd_refl])
    moreover from n(2) have "10 * (n div 10) = n"
      by presburger
    ultimately show ?thesis
      using n by (simp add: tz_step)
  qed
qed

lemma whole_floor: "whole y \<Longrightarrow> real_of_int \<lfloor>y\<rfloor> = y"
  unfolding whole_def by linarith

lemma decimal_body_value:
  "unsigned_value (decimal_body j N) = real N / 10 ^ j \<and>
   decimal_body j N \<noteq> [] \<and> hd (decimal_body j N) \<noteq> CHR ''-''"
proof -
  define z where "z = (if j = 0 then trailing_zeros N else 0)"
  define s where "s = N div 10 ^ z"
  define ds where "ds = digits s"
  define k where "k = length ds"
  have dg: "digit_string ds" and ne: "ds \<noteq> []" and val: "nat_of_digits ds = s"
    by (simp_all add: ds_def digit_string_digits digits_nonempty nat_of_digits_digits)
  from ne have k1: "1 \<le> k"
    unfolding k_def by (cases ds) simp_all
  have hd: "hd ds \<noteq> CHR ''-''"
    using dg ne by (rule digit_string_hd)
  have "10 ^ z dvd N"
    unfolding z_def using trailing_zeros_dvd [of N] by simp
  then have N: "N = s * 10 ^ z"
    by (simp add: s_def)
  have sci: "mantissa_value (scientific ds) = real s / 10 ^ (k - 1)"
    using scientific_value [OF dg ne] by (simp add: val k_def)
  have sci_e: "CHR ''e'' \<notin> set (scientific ds)"
    using dg by (rule scientific_no_e)
  have sci_hd: "scientific ds \<noteq> [] \<and> hd (scientific ds) \<noteq> CHR ''-''"
    using dg ne by (rule scientific_hd)
  have body: "decimal_body j N =
      (if j = 0
       then (if k + z \<le> 21 then ds @ replicate z (CHR ''0'')
             else scientific ds @ exponent_part False (k + z - 1))
       else if j < k
       then (if k - j \<le> 21 then take (k - j) ds @ ''.'' @ drop (k - j) ds
             else scientific ds @ exponent_part False (k - j - 1))
       else (if j - k < 6 then ''0.'' @ replicate (j - k) (CHR ''0'') @ ds
             else scientific ds @ exponent_part True (j - k + 1)))"
    by (simp only: decimal_body_def Let_def z_def s_def ds_def k_def)
  consider (int_plain) "j = 0" "k + z \<le> 21"
    | (int_exp) "j = 0" "\<not> k + z \<le> 21"
    | (frac_plain) "0 < j" "j < k" "k - j \<le> 21"
    | (frac_exp) "0 < j" "j < k" "\<not> k - j \<le> 21"
    | (small_plain) "0 < j" "\<not> j < k" "j - k < 6"
    | (small_exp) "0 < j" "\<not> j < k" "\<not> j - k < 6"
    by fastforce
  then show ?thesis
  proof cases
    case int_plain
    have b: "decimal_body j N = ds @ replicate z (CHR ''0'')"
      unfolding body using int_plain by simp
    have d: "digit_string (ds @ replicate z (CHR ''0''))"
      using dg by (simp add: digit_string_append digit_string_zeros)
    then have "unsigned_value (ds @ replicate z (CHR ''0'')) =
        mantissa_value (ds @ replicate z (CHR ''0''))"
      by (intro unsigned_value_plain digit_string_no_e)
    also have "\<dots> = real (nat_of_digits (ds @ replicate z (CHR ''0'')))"
      using d by (rule mantissa_value_digits)
    also have "\<dots> = real N"
      by (simp add: nat_of_digits_append nat_of_digits_zeros val N)
    finally show ?thesis
      using b int_plain(1) ne hd by simp
  next
    case int_exp
    have b: "decimal_body j N = scientific ds @ exponent_part False (k + z - 1)"
      unfolding body using int_exp by simp
    have e: "unsigned_value (scientific ds @ exponent_part False (k + z - 1)) =
        real s / 10 ^ (k - 1) * 10 ^ (k + z - 1)"
      by (simp add: unsigned_value_exponent [OF sci_e] sci)
    have "k + z - 1 = (k - 1) + z"
      using k1 by simp
    then have p: "(10::real) ^ (k + z - 1) = 10 ^ (k - 1) * 10 ^ z"
      by (simp only: power_add)
    have "real s / 10 ^ (k - 1) * 10 ^ (k + z - 1) = real N"
      unfolding p by (simp add: N)
    with e have "unsigned_value (scientific ds @ exponent_part False (k + z - 1)) = real N"
      by (simp only:)
    then show ?thesis
      unfolding b using int_exp(1) sci_hd by simp
  next
    case frac_plain
    then have b: "decimal_body j N = take (k - j) ds @ ''.'' @ drop (k - j) ds"
      by (simp add: body)
    from frac_plain have z0: "z = 0"
      by (simp add: z_def)
    have "CHR ''e'' \<notin> set (take (k - j) ds @ ''.'' @ drop (k - j) ds)"
      using dg by (intro pointed_no_e digit_string_take digit_string_drop)
    then have "unsigned_value (take (k - j) ds @ ''.'' @ drop (k - j) ds) =
        mantissa_value (take (k - j) ds @ ''.'' @ drop (k - j) ds)"
      by (rule unsigned_value_plain)
    also have "\<dots> = real (nat_of_digits ds) / 10 ^ (length ds - (k - j))"
      using dg by (rule mantissa_value_split) (simp add: k_def)
    also have "length ds - (k - j) = j"
      using frac_plain(2) by (simp add: k_def)
    finally have v: "unsigned_value (take (k - j) ds @ ''.'' @ drop (k - j) ds) = real N / 10 ^ j"
      by (simp add: val N z0)
    from frac_plain(2) ne have "take (k - j) ds \<noteq> []" "hd (take (k - j) ds) = hd ds"
      by (cases ds; simp add: k_def take_Cons')+
    with v b hd show ?thesis
      by simp
  next
    case frac_exp
    then have b: "decimal_body j N = scientific ds @ exponent_part False (k - j - 1)"
      by (simp add: body)
    from frac_exp have z0: "z = 0"
      by (simp add: z_def)
    have "unsigned_value (scientific ds @ exponent_part False (k - j - 1)) =
        real s / 10 ^ (k - 1) * 10 ^ (k - j - 1)"
      by (simp add: unsigned_value_exponent [OF sci_e] sci)
    also have "k - 1 = (k - j - 1) + j"
      using frac_exp(2) by simp
    also have "real s / 10 ^ ((k - j - 1) + j) * 10 ^ (k - j - 1) = real N / 10 ^ j"
      by (simp add: power_add N z0)
    finally show ?thesis
      using b sci_hd by simp
  next
    case small_plain
    then have b: "decimal_body j N = ''0'' @ ''.'' @ (replicate (j - k) (CHR ''0'') @ ds)"
      by (simp add: body)
    from small_plain have z0: "z = 0"
      by (simp add: z_def)
    have d0: "digit_string ''0''"
      by (simp add: digit_string_def)
    have d1: "digit_string (replicate (j - k) (CHR ''0'') @ ds)"
      using dg by (simp add: digit_string_append digit_string_zeros)
    have "unsigned_value (''0'' @ ''.'' @ (replicate (j - k) (CHR ''0'') @ ds)) =
        mantissa_value (''0'' @ ''.'' @ (replicate (j - k) (CHR ''0'') @ ds))"
      using d0 d1 by (intro unsigned_value_plain pointed_no_e)
    also have "\<dots> = real (nat_of_digits ''0'') +
        real (nat_of_digits (replicate (j - k) (CHR ''0'') @ ds)) /
          10 ^ length (replicate (j - k) (CHR ''0'') @ ds)"
      using d0 d1 by (rule mantissa_value_point)
    also have "nat_of_digits ''0'' = 0"
      using nat_of_digits_zeros [of 1] by simp
    also have "nat_of_digits (replicate (j - k) (CHR ''0'') @ ds) = s"
      by (simp add: nat_of_digits_append nat_of_digits_zeros val)
    also have "length (replicate (j - k) (CHR ''0'') @ ds) = j"
      using small_plain(2) by (simp add: k_def)
    finally show ?thesis
      using b by (simp add: N z0)
  next
    case small_exp
    then have b: "decimal_body j N = scientific ds @ exponent_part True (j - k + 1)"
      by (simp add: body)
    from small_exp have z0: "z = 0"
      by (simp add: z_def)
    have "unsigned_value (scientific ds @ exponent_part True (j - k + 1)) =
        real s / 10 ^ (k - 1) * (1 / 10 ^ (j - k + 1))"
      by (simp add: unsigned_value_exponent [OF sci_e] sci)
    also have "\<dots> = real s / 10 ^ ((k - 1) + (j - k + 1))"
      by (simp add: power_add)
    also have "(k - 1) + (j - k + 1) = j"
      using small_exp(2) k1 by simp
    finally show ?thesis
      using b sci_hd by (simp add: N z0)
  qed
qed

lemma Number_toString_value:
  assumes "is_decimal x"
  shows "decimal_value (Number_toString x) = x"
proof -
  define j where "j = fraction_places 340 0 \<bar>x\<bar>"
  define N where "N = nat \<lfloor>\<bar>x\<bar> * 10 ^ j\<rfloor>"
  from assms have "whole (\<bar>x\<bar> * 10 ^ j)"
    by (simp add: is_decimal_def Let_def j_def)
  then have "real_of_int \<lfloor>\<bar>x\<bar> * 10 ^ j\<rfloor> = \<bar>x\<bar> * 10 ^ j"
    by (rule whole_floor)
  moreover have "0 \<le> \<lfloor>\<bar>x\<bar> * 10 ^ j\<rfloor>"
    by simp
  ultimately have "real N = \<bar>x\<bar> * 10 ^ j"
    unfolding N_def by (metis of_int_of_nat_eq nat_0_le)
  then have a: "real N / 10 ^ j = \<bar>x\<bar>"
    by simp
  note b = decimal_body_value [of j N]
  have p: "Number_toString x = (if x < 0 then ''-'' else '''') @ decimal_body j N"
    by (simp only: Number_toString_def Let_def j_def N_def)
  show ?thesis
  proof (cases "x < 0")
    case True
    with p have "decimal_value (Number_toString x) = - unsigned_value (decimal_body j N)"
      by (simp only: if_True decimal_value_minus)
    with b a True show ?thesis
      by simp
  next
    case False
    with p have "Number_toString x = decimal_body j N"
      by simp
    with b have "decimal_value (Number_toString x) = unsigned_value (decimal_body j N)"
      by (simp add: decimal_value_unsigned)
    with b a False show ?thesis
      by simp
  qed
qed

lemma fraction_places_result:
  "whole (x * 10 ^ fraction_places fuel k x) \<or> fraction_places fuel k x = k + fuel"
proof (induction fuel arbitrary: k)
  case 0
  then show ?case by simp
next
  case (Suc fuel)
  show ?case
  proof (cases "whole (x * 10 ^ k)")
    case True
    then show ?thesis by simp
  next
    case False
    with Suc.IH [of "Suc k"] show ?thesis by simp
  qed
qed

lemma Number_toString_reading:
  "decimal_value (Number_toString x) =
     (if x < 0 then - 1 else 1) *
       (real (nat \<lfloor>\<bar>x\<bar> * 10 ^ fraction_places 340 0 \<bar>x\<bar>\<rfloor>) /
          10 ^ fraction_places 340 0 \<bar>x\<bar>)"
proof -
  define j where "j = fraction_places 340 0 \<bar>x\<bar>"
  define N where "N = nat \<lfloor>\<bar>x\<bar> * 10 ^ j\<rfloor>"
  note b = decimal_body_value [of j N]
  have p: "Number_toString x = (if x < 0 then ''-'' else '''') @ decimal_body j N"
    by (simp only: Number_toString_def Let_def j_def N_def)
  have "decimal_value (Number_toString x) = (if x < 0 then - 1 else 1) * (real N / 10 ^ j)"
  proof (cases "x < 0")
    case True
    with p have "decimal_value (Number_toString x) = - unsigned_value (decimal_body j N)"
      by (simp only: if_True decimal_value_minus)
    with b True show ?thesis
      by simp
  next
    case False
    with p have "Number_toString x = decimal_body j N"
      by simp
    with b have "decimal_value (Number_toString x) = unsigned_value (decimal_body j N)"
      by (simp add: decimal_value_unsigned)
    with b False show ?thesis
      by simp
  qed
  then show ?thesis
    by (simp only: j_def N_def)
qed

lemma Number_toString_close:
  "\<bar>decimal_value (Number_toString x) - x\<bar> \<le> 1 / 10 ^ 340"
proof -
  define j where "j = fraction_places 340 0 \<bar>x\<bar>"
  define y where "y = \<bar>x\<bar> * 10 ^ j"
  have y0: "0 \<le> y"
    by (simp add: y_def)
  then have N: "real (nat \<lfloor>y\<rfloor>) = real_of_int \<lfloor>y\<rfloor>"
    by simp
  have r: "decimal_value (Number_toString x) =
      (if x < 0 then - 1 else 1) * (real_of_int \<lfloor>y\<rfloor> / 10 ^ j)"
    unfolding Number_toString_reading N [symmetric] by (simp only: j_def y_def)
  have a: "\<bar>x\<bar> = y / 10 ^ j"
    by (simp add: y_def)
  have d: "\<bar>decimal_value (Number_toString x) - x\<bar> = (y - real_of_int \<lfloor>y\<rfloor>) / 10 ^ j"
  proof -
    have "decimal_value (Number_toString x) - x =
        (if x < 0 then - 1 else 1) * (real_of_int \<lfloor>y\<rfloor> / 10 ^ j - \<bar>x\<bar>)"
      unfolding r by (simp add: algebra_simps)
    also have "real_of_int \<lfloor>y\<rfloor> / 10 ^ j - \<bar>x\<bar> = (real_of_int \<lfloor>y\<rfloor> - y) / 10 ^ j"
      unfolding a by (simp add: diff_divide_distrib)
    finally have "\<bar>decimal_value (Number_toString x) - x\<bar> =
        \<bar>real_of_int \<lfloor>y\<rfloor> - y\<bar> / 10 ^ j"
      by (simp add: abs_mult abs_divide)
    moreover have "\<bar>real_of_int \<lfloor>y\<rfloor> - y\<bar> = y - real_of_int \<lfloor>y\<rfloor>"
      by linarith
    ultimately show ?thesis
      by simp
  qed
  from fraction_places_result [of "\<bar>x\<bar>" 340 0]
  consider "whole y" | "j = 340"
    unfolding y_def j_def by auto
  then show ?thesis
  proof cases
    case 1
    then have "real_of_int \<lfloor>y\<rfloor> = y"
      by (rule whole_floor)
    with d show ?thesis
      by simp
  next
    case 2
    have "y - real_of_int \<lfloor>y\<rfloor> \<le> 1"
      by linarith
    then have "(y - real_of_int \<lfloor>y\<rfloor>) / 10 ^ j \<le> 1 / 10 ^ j"
      by (rule divide_right_mono) simp
    with d have "\<bar>decimal_value (Number_toString x) - x\<bar> \<le> 1 / 10 ^ j"
      by (simp only:)
    with 2 show ?thesis
      by (simp only:)
  qed
qed

lemma Number_toString_sign:
  "Number_toString x = (if x < 0 then ''-'' else '''') @ Number_toString \<bar>x\<bar>"
  by (simp add: Number_toString_def Let_def)

lemma toFixed_big: "10 ^ 21 \<le> \<bar>x\<bar> \<Longrightarrow> toFixed x d = Number_toString x"
  using Number_toString_sign [of x] by (simp add: toFixed_def Let_def)

lemma toFixed_value:
  assumes "\<bar>x\<bar> < 10 ^ 21"
  shows "decimal_value (toFixed x d) = Number_toFixed x d"
proof -
  define T where "T = toFixed_int d x"
  define n where "n = digits T"
  define p where "p = replicate (d + 1 - length n) (CHR ''0'') @ n"
  define m where "m = (if d = 0 then n else take (length p - d) p @ ''.'' @ drop (length p - d) p)"
  have dn: "digit_string n" and nn: "n \<noteq> []" and vn: "nat_of_digits n = T"
    by (simp_all add: n_def digit_string_digits digits_nonempty nat_of_digits_digits)
  have dp: "digit_string p"
    using dn by (simp add: p_def digit_string_append digit_string_zeros)
  have vp: "nat_of_digits p = T"
    by (simp add: p_def nat_of_digits_append nat_of_digits_zeros vn)
  have lp: "d < length p"
    by (simp add: p_def)
  have pn: "p \<noteq> []"
    using nn by (simp add: p_def)
  have tf: "toFixed x d = (if x < 0 then ''-'' else '''') @ m"
    using assms by (simp add: toFixed_def Let_def m_def p_def n_def T_def)
  have m: "unsigned_value m = real T / 10 ^ d \<and> m \<noteq> [] \<and> hd m \<noteq> CHR ''-''"
  proof (cases "d = 0")
    case True
    then have "m = n"
      by (simp add: m_def)
    moreover have "unsigned_value n = real T"
      using dn by (simp add: unsigned_value_plain digit_string_no_e mantissa_value_digits vn)
    ultimately show ?thesis
      using True nn digit_string_hd [OF dn nn] by simp
  next
    case False
    then have mm: "m = take (length p - d) p @ ''.'' @ drop (length p - d) p"
      by (simp add: m_def)
    have "CHR ''e'' \<notin> set (take (length p - d) p @ ''.'' @ drop (length p - d) p)"
      using dp by (intro pointed_no_e digit_string_take digit_string_drop)
    then have "unsigned_value m = mantissa_value (take (length p - d) p @ ''.'' @ drop (length p - d) p)"
      unfolding mm by (rule unsigned_value_plain)
    also have "\<dots> = real (nat_of_digits p) / 10 ^ (length p - (length p - d))"
      using dp by (rule mantissa_value_split) simp
    also have "length p - (length p - d) = d"
      using lp by simp
    finally have v: "unsigned_value m = real T / 10 ^ d"
      by (simp add: vp)
    from lp pn have "take (length p - d) p \<noteq> []" "hd (take (length p - d) p) = hd p"
      by (cases p; simp add: take_Cons')+
    with mm digit_string_hd [OF dp pn] have "m \<noteq> [] \<and> hd m \<noteq> CHR ''-''"
      by simp
    with v show ?thesis
      by simp
  qed
  have nf: "Number_toFixed x d = (if x < 0 then - 1 else 1) * real T / 10 ^ d"
    using assms by (simp add: Number_toFixed_def T_def)
  show ?thesis
  proof (cases "x < 0")
    case True
    with tf have "decimal_value (toFixed x d) = - unsigned_value m"
      by (simp only: if_True decimal_value_minus)
    with m nf True show ?thesis
      by simp
  next
    case False
    with tf have "toFixed x d = m"
      by simp
    with m have "decimal_value (toFixed x d) = unsigned_value m"
      by (simp add: decimal_value_unsigned)
    with m nf False show ?thesis
      by simp
  qed
qed

lemma Number_toFixed_near:
  assumes "\<bar>x\<bar> < 10 ^ 21"
  shows "\<bar>Number_toFixed x d - x\<bar> \<le> 1 / (2 * 10 ^ d)"
proof -
  let ?y = "\<bar>x\<bar> * 10 ^ d + 1 / 2"
  have nn: "0 \<le> \<lfloor>?y\<rfloor>"
    by simp
  have eq: "Number_toFixed x d = (if x < 0 then - 1 else 1) * (real_of_int \<lfloor>?y\<rfloor> / 10 ^ d)"
    using assms nn by (simp add: Number_toFixed_def toFixed_int_def)
  have "Number_toFixed x d - x = (if x < 0 then - 1 else 1) * (real_of_int \<lfloor>?y\<rfloor> / 10 ^ d - \<bar>x\<bar>)"
    unfolding eq by (simp add: algebra_simps)
  also have "real_of_int \<lfloor>?y\<rfloor> / 10 ^ d - \<bar>x\<bar> = (real_of_int \<lfloor>?y\<rfloor> - \<bar>x\<bar> * 10 ^ d) / 10 ^ d"
    by (simp add: diff_divide_distrib)
  finally have "\<bar>Number_toFixed x d - x\<bar> = \<bar>real_of_int \<lfloor>?y\<rfloor> - \<bar>x\<bar> * 10 ^ d\<bar> / 10 ^ d"
    by (simp add: abs_mult abs_divide)
  moreover have "\<bar>real_of_int \<lfloor>?y\<rfloor> - \<bar>x\<bar> * 10 ^ d\<bar> \<le> 1 / 2"
    by linarith
  then have "\<bar>real_of_int \<lfloor>?y\<rfloor> - \<bar>x\<bar> * 10 ^ d\<bar> / 10 ^ d \<le> (1 / 2) / 10 ^ d"
    by (rule divide_right_mono) simp
  ultimately show ?thesis
    by simp
qed

lemma format_close: "\<bar>decimal_value (format v 2) - v\<bar> \<le> 0.005"
proof (cases "\<bar>v\<bar> < 10 ^ 21")
  case True
  then have "decimal_value (format v 2) = Number_toFixed v 2"
    unfolding format_def by (rule toFixed_value)
  with Number_toFixed_near [OF True, of 2] show ?thesis
    by simp
next
  case False
  then have "10 ^ 21 \<le> \<bar>v\<bar>"
    by simp
  then have f: "format v 2 = Number_toString v"
    unfolding format_def by (rule toFixed_big)
  have "(1::real) / 10 ^ 340 \<le> 1 / 10 ^ 3"
    by (intro divide_left_mono power_increasing; simp)
  then have b: "(1::real) / 10 ^ 340 \<le> 0.005"
    by simp
  have "\<bar>decimal_value (format v 2) - v\<bar> \<le> 1 / 10 ^ 340"
    unfolding f by (rule Number_toString_close)
  then show ?thesis
    using b by (rule order_trans)
qed

lemma Number_toString_examples:
  "Number_toString 0 = ''0'' \<and> Number_toString 19.3 = ''19.3'' \<and>
   Number_toString (- 0.25) = ''-0.25'' \<and>
   Number_toString (1 / 10 ^ 6) = ''0.000001'' \<and>
   Number_toString (1 / 10 ^ 7) = ''1e-7'' \<and>
   Number_toString (15 / 10 ^ 8) = ''1.5e-7'' \<and>
   Number_toString (10 ^ 21) = ''1e+21''"
  by (simp add: print_simps)

lemma threshold_strings:
  "Number_toString (pH_min THRESHOLDS) = ''6.5'' \<and>
   Number_toString (pH_max THRESHOLDS) = ''8.5'' \<and>
   Number_toString (turbidity_max THRESHOLDS) = ''5'' \<and>
   Number_toString (waterLevelPercent_min THRESHOLDS) = ''20''"
proof -
  have "Number_toString 6.5 = ''6.5''" "Number_toString 8.5 = ''8.5''"
    "Number_toString 5 = ''5''" "Number_toString 20 = ''20''"
    by (simp_all add: print_simps)
  then show ?thesis
    by (simp add: THRESHOLDS_def)
qed

lemma alerts_explicit:
  "alerts c =
     (if status_pH (status_of c) = Bad
      then [''pH '' @ format (pH c) 2 @ '' out of safe range (6.5-8.5)''] else []) @
     (if status_turbidity (status_of c) = Bad
      then [''Turbidity '' @ format (turbidity c) 2 @ '' NTU > 5''] else []) @
     (if status_waterLevel (status_of c) = Bad
      then [''Water level '' @ Number_toString (waterLevelPercent c) @ ''% low (< 20%)'']
      else [])"
  by (simp add: alerts_def Let_def threshold_strings)

lemma status_temperature_not_Bad: "status_temperature (status_of c) \<noteq> Bad"
  by (simp add: status_of_def)

lemma format_9: "format 9.0 2 = ''9.00''"
  by (simp add: format_def toFixed_def toFixed_int_def digit_char_def digits_small digits_step
      Let_def)

lemma Number_toString_10: "Number_toString 10 = ''10''"
  by (simp add: print_simps)

lemma sublist_second: "sublist x (a @ y @ b @ x @ r)"
  using sublist_appendI [of x "a @ y @ b" r] by simp

lemma sublist_third: "sublist x (a @ y @ b @ z @ c @ x @ r)"
  using sublist_appendI [of x "a @ y @ b @ z @ c" r] by simp

lemma sublist_second_end: "sublist x (a @ y @ b @ x)"
  using sublist_second [of x a y b "[]"] by simp

text \<open>
  C4. The alerts are one message for each of pH, turbidity and water level whose status
  is "bad", in that order, and nothing else: their number is the number of "bad"
  statuses, and the temperature has no influence on them. The pH message embeds the value
  printed with two decimals and the thresholds 6.5 and 8.5, the turbidity message the value
  printed with two decimals and the threshold 5, the water-level message the value and
  the threshold 20. The digits printed denote the values: read as a decimal numeral, the
  printed pH and the printed turbidity are the two-decimal roundings of the current pH and
  turbidity, within 0.005 of them; the printed water level is the current water level
  itself whenever that is a decimal, and within \<open>10^-340\<close> of it otherwise; and the
  threshold numerals denote the thresholds. For the sample with pH 9.0, turbidity 1,
  temperature 20 and water level 50 the pH status is "bad" and the only alert is
  "pH 9.00 out of safe range (6.5-8.5)", which contains "6.5" and "8.5".
\<close>

theorem alerts_one_per_bad_channel:
  "alerts c =
     (if status_pH (status_of c) = Bad
      then [''pH '' @ format (pH c) 2 @ '' out of safe range (6.5-8.5)''] else []) @
     (if status_turbidity (status_of c) = Bad
      then [''Turbidity '' @ format (turbidity c) 2 @ '' NTU > 5''] else []) @
     (if status_waterLevel (status_of c) = Bad
      then [''Water level '' @ Number_toString (waterLevelPercent c) @ ''% low (< 20%)'']
      else []) \<and>
   length (alerts c) = length (filter (\<lambda>s. s = Bad) (Object_values (status_of c))) \<and>
   alerts (c\<lparr> temperature := t \<rparr>) = alerts c \<and>
   (status_pH (status_of c) = Bad \<longrightarrow>
      (\<exists>m \<in> set (alerts c). sublist (format (pH c) 2) m \<and>
         sublist (Number_toString (pH_min THRESHOLDS)) m \<and>
         sublist (Number_toString (pH_max THRESHOLDS)) m)) \<and>
   (status_turbidity (status_of c) = Bad \<longrightarrow>
      (\<exists>m \<in> set (alerts c). sublist (format (turbidity c) 2) m \<and>
         sublist (Number_toString (turbidity_max THRESHOLDS)) m)) \<and>
   (status_waterLevel (status_of c) = Bad \<longrightarrow>
      (\<exists>m \<in> set (alerts c). sublist (Number_toString (waterLevelPercent c)) m \<and>
         sublist (Number_toString (waterLevelPercent_min THRESHOLDS)) m)) \<and>
   status_pH (status_of \<lparr> timestamp = t0, pH = 9.0, turbidity = 1, temperature = 20,
                           waterLevelPercent = 50 \<rparr>) = Bad \<and>
   alerts \<lparr> timestamp = t0, pH = 9.0, turbidity = 1, temperature = 20,
            waterLevelPercent = 50 \<rparr> = [''pH 9.00 out of safe range (6.5-8.5)''] \<and>
   sublist ''6.5'' ''pH 9.00 out of safe range (6.5-8.5)'' \<and>
   sublist ''8.5'' ''pH 9.00 out of safe range (6.5-8.5)'' \<and>
   \<bar>decimal_value (format (pH c) 2) - pH c\<bar> \<le> 0.005 \<and>
   \<bar>decimal_value (format (turbidity c) 2) - turbidity c\<bar> \<le> 0.005 \<and>
   (\<bar>pH c\<bar> < 10 ^ 21 \<longrightarrow> decimal_value (format (pH c) 2) = Number_toFixed (pH c) 2) \<and>
   (\<bar>turbidity c\<bar> < 10 ^ 21 \<longrightarrow>
      decimal_value (format (turbidity c) 2) = Number_toFixed (turbidity c) 2) \<and>
   \<bar>decimal_value (Number_toString (waterLevelPercent c)) - waterLevelPercent c\<bar>
     \<le> 1 / 10 ^ 340 \<and>
   (is_decimal (waterLevelPercent c) \<longrightarrow>
      decimal_value (Number_toString (waterLevelPercent c)) = waterLevelPercent c) \<and>
   decimal_value ''6.5'' = pH_min THRESHOLDS \<and>
   decimal_value ''8.5'' = pH_max THRESHOLDS \<and>
   decimal_value ''5'' = turbidity_max THRESHOLDS \<and>
   decimal_value ''20'' = waterLevelPercent_min THRESHOLDS \<and>
   decimal_value ''9.00'' = 9.0"
proof -
  let ?pm = "''pH '' @ format (pH c) 2 @ '' out of safe range ('' @
             Number_toString (pH_min THRESHOLDS) @ ''-'' @
             Number_toString (pH_max THRESHOLDS) @ '')''"
  let ?tm = "''Turbidity '' @ format (turbidity c) 2 @ '' NTU > '' @
             Number_toString (turbidity_max THRESHOLDS)"
  let ?lm = "''Water level '' @ Number_toString (waterLevelPercent c) @ ''% low (< '' @
             Number_toString (waterLevelPercent_min THRESHOLDS) @ ''%)''"
  let ?c0 = "\<lparr> timestamp = t0, pH = 9.0, turbidity = 1, temperature = 20,
               waterLevelPercent = 50 \<rparr>"
  have a1: "alerts c =
     (if status_pH (status_of c) = Bad
      then [''pH '' @ format (pH c) 2 @ '' out of safe range (6.5-8.5)''] else []) @
     (if status_turbidity (status_of c) = Bad
      then [''Turbidity '' @ format (turbidity c) 2 @ '' NTU > 5''] else []) @
     (if status_waterLevel (status_of c) = Bad
      then [''Water level '' @ Number_toString (waterLevelPercent c) @ ''% low (< 20%)'']
      else [])"
    by (rule alerts_explicit)
  have a2: "length (alerts c) = length (filter (\<lambda>s. s = Bad) (Object_values (status_of c)))"
    using status_temperature_not_Bad [of c] by (simp add: alerts_explicit Object_values_def)
  have a3: "alerts (c\<lparr> temperature := t \<rparr>) = alerts c"
    by (simp add: alerts_def status_of_def Let_def)
  have a4: "status_pH (status_of c) = Bad \<longrightarrow>
      (\<exists>m \<in> set (alerts c). sublist (format (pH c) 2) m \<and>
         sublist (Number_toString (pH_min THRESHOLDS)) m \<and>
         sublist (Number_toString (pH_max THRESHOLDS)) m)"
  proof
    assume "status_pH (status_of c) = Bad"
    then have "?pm \<in> set (alerts c)"
      by (simp add: alerts_def Let_def)
    moreover have "sublist (format (pH c) 2) ?pm"
      by (rule sublist_appendI)
    moreover have "sublist (Number_toString (pH_min THRESHOLDS)) ?pm"
      by (rule sublist_second)
    moreover have "sublist (Number_toString (pH_max THRESHOLDS)) ?pm"
      by (rule sublist_third)
    ultimately show "\<exists>m \<in> set (alerts c). sublist (format (pH c) 2) m \<and>
         sublist (Number_toString (pH_min THRESHOLDS)) m \<and>
         sublist (Number_toString (pH_max THRESHOLDS)) m"
      by blast
  qed
  have a5: "status_turbidity (status_of c) = Bad \<longrightarrow>
      (\<exists>m \<in> set (alerts c). sublist (format (turbidity c) 2) m \<and>
         sublist (Number_toString (turbidity_max THRESHOLDS)) m)"
  proof
    assume "status_turbidity (status_of c) = Bad"
    then have "?tm \<in> set (alerts c)"
      by (simp add: alerts_def Let_def)
    moreover have "sublist (format (turbidity c) 2) ?tm"
      by (rule sublist_appendI)
    moreover have "sublist (Number_toString (turbidity_max THRESHOLDS)) ?tm"
      by (rule sublist_second_end)
    ultimately show "\<exists>m \<in> set (alerts c). sublist (format (turbidity c) 2) m \<and>
         sublist (Number_toString (turbidity_max THRESHOLDS)) m"
      by blast
  qed
  have a6: "status_waterLevel (status_of c) = Bad \<longrightarrow>
      (\<exists>m \<in> set (alerts c). sublist (Number_toString (waterLevelPercent c)) m \<and>
         sublist (Number_toString (waterLevelPercent_min THRESHOLDS)) m)"
  proof
    assume "status_waterLevel (status_of c) = Bad"
    then have "?lm \<in> set (alerts c)"
      by (simp add: alerts_def Let_def)
    moreover have "sublist (Number_toString (waterLevelPercent c)) ?lm"
      by (rule sublist_appendI)
    moreover have "sublist (Number_toString (waterLevelPercent_min THRESHOLDS)) ?lm"
      by (rule sublist_second)
    ultimately show "\<exists>m \<in> set (alerts c). sublist (Number_toString (waterLevelPercent c)) m \<and>
         sublist (Number_toString (waterLevelPercent_min THRESHOLDS)) m"
      by blast
  qed
  have a7: "status_pH (status_of ?c0) = Bad"
    by (simp add: status_of_def THRESHOLDS_def)
  have "status_turbidity (status_of ?c0) = Ok" "status_waterLevel (status_of ?c0) = Ok"
    by (simp_all add: status_of_def THRESHOLDS_def)
  with a7 have a8: "alerts ?c0 = [''pH 9.00 out of safe range (6.5-8.5)'']"
    using format_9 by (simp add: alerts_explicit)
  have a9: "sublist ''6.5'' ''pH 9.00 out of safe range (6.5-8.5)''"
    using sublist_appendI [of "''6.5''" "''pH 9.00 out of safe range (''" "''-8.5)''"]
    by simp
  have a10: "sublist ''8.5'' ''pH 9.00 out of safe range (6.5-8.5)''"
    using sublist_appendI [of "''8.5''" "''pH 9.00 out of safe range (6.5-''" "'')''"]
    by simp
  have a11: "\<bar>decimal_value (format (pH c) 2) - pH c\<bar> \<le> 0.005"
    by (rule format_close)
  have a12: "\<bar>decimal_value (format (turbidity c) 2) - turbidity c\<bar> \<le> 0.005"
    by (rule format_close)
  have a13: "\<bar>pH c\<bar> < 10 ^ 21 \<longrightarrow> decimal_value (format (pH c) 2) = Number_toFixed (pH c) 2"
    unfolding format_def using toFixed_value by blast
  have a14: "\<bar>turbidity c\<bar> < 10 ^ 21 \<longrightarrow>
      decimal_value (format (turbidity c) 2) = Number_toFixed (turbidity c) 2"
    unfolding format_def using toFixed_value by blast
  have a15: "\<bar>decimal_value (Number_toString (waterLevelPercent c)) - waterLevelPercent c\<bar>
     \<le> 1 / 10 ^ 340"
    by (rule Number_toString_close)
  have a16: "is_decimal (waterLevelPercent c) \<longrightarrow>
      decimal_value (Number_toString (waterLevelPercent c)) = waterLevelPercent c"
    using Number_toString_value by blast
  have a17: "decimal_value ''6.5'' = pH_min THRESHOLDS"
    by (simp add: read_simps THRESHOLDS_def)
  have a18: "decimal_value ''8.5'' = pH_max THRESHOLDS"
    by (simp add: read_simps THRESHOLDS_def)
  have a19: "decimal_value ''5'' = turbidity_max THRESHOLDS"
    by (simp add: read_simps THRESHOLDS_def)
  have a20: "decimal_value ''20'' = waterLevelPercent_min THRESHOLDS"
    by (simp add: read_simps THRESHOLDS_def)
  have a21: "decimal_value ''9.00'' = 9.0"
    by (simp add: read_simps)
  from a1 a2 a3 a4 a5 a6 a7 a8 a9 a10 a11 a12 a13 a14 a15 a16 a17 a18 a19 a20 a21
  show ?thesis
    by (intro conjI) assumption+
qed

theorem alerts_one_per_bad_channel_witness:
  "status_waterLevel (status_of \<lparr> timestamp = 0, pH = 7, turbidity = 1, temperature = 20,
       waterLevelPercent = 10 \<rparr>) = Bad \<and>
   alerts \<lparr> timestamp = 0, pH = 7, turbidity = 1, temperature = 20,
            waterLevelPercent = 10 \<rparr> = [''Water level 10% low (< 20%)''] \<and>
   (\<exists>m \<in> set (alerts \<lparr> timestamp = 0, pH = 7, turbidity = 1, temperature = 20,
            waterLevelPercent = 10 \<rparr>). sublist ''10'' m \<and> sublist ''20'' m) \<and>
   is_decimal 10 \<and> decimal_value ''10'' = 10"
proof -
  let ?c = "\<lparr> timestamp = 0, pH = 7, turbidity = 1, temperature = 20,
              waterLevelPercent = 10 \<rparr>"
  have s: "status_pH (status_of ?c) = Ok" "status_turbidity (status_of ?c) = Ok"
      "status_waterLevel (status_of ?c) = Bad"
    by (simp_all add: status_of_def THRESHOLDS_def)
  have d: "is_decimal (waterLevelPercent ?c)"
    by (simp add: is_decimal_def whole_def fraction_places_numeral)
  note t = alerts_one_per_bad_channel [of ?c]
  from t have "alerts ?c =
     (if status_pH (status_of ?c) = Bad
      then [''pH '' @ format (pH ?c) 2 @ '' out of safe range (6.5-8.5)''] else []) @
     (if status_turbidity (status_of ?c) = Bad
      then [''Turbidity '' @ format (turbidity ?c) 2 @ '' NTU > 5''] else []) @
     (if status_waterLevel (status_of ?c) = Bad
      then [''Water level '' @ Number_toString (waterLevelPercent ?c) @ ''% low (< 20%)'']
      else [])"
    by (rule conjunct1)
  with s have a: "alerts ?c = [''Water level 10% low (< 20%)'']"
    using Number_toString_10 by simp
  from t s(3) have "\<exists>m \<in> set (alerts ?c). sublist (Number_toString (waterLevelPercent ?c)) m \<and>
         sublist (Number_toString (waterLevelPercent_min THRESHOLDS)) m"
    by blast
  then have b: "\<exists>m \<in> set (alerts ?c). sublist ''10'' m \<and> sublist ''20'' m"
    using Number_toString_10 threshold_strings by simp
  from t d have "decimal_value (Number_toString (waterLevelPercent ?c)) = waterLevelPercent ?c"
    by blast
  then have v: "decimal_value ''10'' = 10"
    using Number_toString_10 by simp
  from d have d': "is_decimal 10"
    by simp
  from s(3) a b d' v show ?thesis
    by (intro conjI) assumption+
qed

text \<open>
  C7. The statuses, the overall flag and the alerts of a render are functions of the
  current sample alone (the thresholds are constants): two component states with the same
  current sample give the same three results, whatever their histories and view modes.
\<close>

theorem evaluation_depends_on_current_only:
  "view_status (render st) = status_of (current st) \<and>
   view_overallOk (render st) = overallOk (status_of (current st)) \<and>
   view_alerts (render st) = alerts (current st) \<and>
   (current st1 = current st2 \<longrightarrow>
      view_status (render st1) = view_status (render st2) \<and>
      view_overallOk (render st1) = view_overallOk (render st2) \<and>
      view_alerts (render st1) = view_alerts (render st2)) \<and>
   view_status (render (st\<lparr> history := h, modeScientific := m \<rparr>)) = view_status (render st) \<and>
   view_overallOk (render (st\<lparr> history := h, modeScientific := m \<rparr>)) =
     view_overallOk (render st) \<and>
   view_alerts (render (st\<lparr> history := h, modeScientific := m \<rparr>)) = view_alerts (render st)"
  by (simp add: render_def)

theorem evaluation_depends_on_current_only_witness:
  "view_status (render \<lparr> modeScientific = False, history = [],
                         current = initial_current 0 \<rparr>) =
   view_status (render \<lparr> modeScientific = True,
                         history = [initial_current 5, initial_current 7],
                         current = initial_current 0 \<rparr>) \<and>
   view_alerts (render \<lparr> modeScientific = False, history = [],
                         current = initial_current 0 \<rparr>) =
   view_alerts (render \<lparr> modeScientific = True,
                         history = [initial_current 5, initial_current 7],
                         current = initial_current 0 \<rparr>)"
proof -
  let ?a = "\<lparr> modeScientific = False, history = [], current = initial_current 0 \<rparr>"
  let ?b = "\<lparr> modeScientific = True, history = [initial_current 5, initial_current 7],
              current = initial_current 0 \<rparr>"
  have "current ?a = current ?b"
    by simp
  with evaluation_depends_on_current_only [of _ ?a ?b] show ?thesis
    by blast
qed


subsection \<open>Sparkline paths\<close>

lemma or_else_nonzero: "b \<noteq> 0 \<Longrightarrow> or_else a b \<noteq> 0"
  by (simp add: or_else_def)

lemma fold_max_const: "\<forall>v \<in> set xs. v = c \<Longrightarrow> fold max xs (c::real) = c"
  by (induction xs) simp_all

lemma fold_min_const: "\<forall>v \<in> set xs. v = c \<Longrightarrow> fold min xs (c::real) = c"
  by (induction xs) simp_all

lemma Math_max_const: "vs \<noteq> [] \<Longrightarrow> \<forall>v \<in> set vs. v = c \<Longrightarrow> Math_max vs = c"
  by (cases vs) (simp_all add: Math_max_def fold_max_const)

lemma Math_min_const: "vs \<noteq> [] \<Longrightarrow> \<forall>v \<in> set vs. v = c \<Longrightarrow> Math_min vs = c"
  by (cases vs) (simp_all add: Math_min_def fold_min_const)

lemma spark_range_const: "vs \<noteq> [] \<Longrightarrow> \<forall>v \<in> set vs. v = c \<Longrightarrow> spark_range vs = 1"
  by (simp add: spark_range_def Math_max_const Math_min_const or_else_def)

lemma spark_point_const:
  assumes "vs \<noteq> []" and "\<forall>v \<in> set vs. v = c"
  shows "spark_point vs w h i c = (real i / spark_steps vs * w, h)"
  using assms by (simp add: spark_point_def Let_def Math_min_const spark_range_const)

lemma map_enumerate_const:
  assumes "\<forall>v \<in> set vs. v = c"
  shows "map (\<lambda>(i, v). f i v) (enumerate 0 vs) = map (\<lambda>i. f i c) [0..<length vs]"
proof (rule nth_equalityI)
  show "length (map (\<lambda>(i, v). f i v) (enumerate 0 vs)) = length (map (\<lambda>i. f i c) [0..<length vs])"
    by simp
next
  fix i
  assume "i < length (map (\<lambda>(i, v). f i v) (enumerate 0 vs))"
  then have i: "i < length vs"
    by simp
  then have "vs ! i = c"
    using assms by simp
  with i show "map (\<lambda>(i, v). f i v) (enumerate 0 vs) ! i = map (\<lambda>i. f i c) [0..<length vs] ! i"
    by (simp add: nth_enumerate_eq)
qed

lemma toFixed_zero_1: "toFixed 0 1 = ''0.0''"
  by (simp add: toFixed_def toFixed_int_def digit_char_def digits_small Let_def)

lemma toFixed_36_1: "toFixed 36 1 = ''36.0''"
  by (simp add: toFixed_def toFixed_int_def digit_char_def digits_small digits_step Let_def)

lemma sparkPath_const:
  assumes "vs \<noteq> []" and "\<forall>v \<in> set vs. v = c"
  shows "sparkPath vs w h =
           join '' '' (map (\<lambda>i. (if i = 0 then ''M'' else ''L'') @ '' '' @
                               toFixed (real i / spark_steps vs * w) 1 @ '' '' @ toFixed h 1)
                        [0..<length vs])"
proof -
  have "map (\<lambda>(i, v). case spark_point vs w h i v of (x, y) \<Rightarrow>
                     (if i = 0 then ''M'' else ''L'') @ '' '' @ toFixed x 1 @ '' '' @ toFixed y 1)
                (enumerate 0 vs) =
        map (\<lambda>i. case spark_point vs w h i c of (x, y) \<Rightarrow>
                     (if i = 0 then ''M'' else ''L'') @ '' '' @ toFixed x 1 @ '' '' @ toFixed y 1)
                [0..<length vs]"
    using assms(2) by (rule map_enumerate_const)
  with assms show ?thesis
    by (simp add: sparkPath_def spark_point_const)
qed

text \<open>
  C10. For a values array of at least two elements that are all equal, the observed range
  is zero and is replaced by 1, so every point that \<open>sparkPath\<close> emits has \<open>y = h\<close>, the
  bottom edge of the drawing box, and not the middle \<open>h / 2\<close> of a box of nonzero height;
  every command of the path prints that \<open>y\<close>.
\<close>

theorem flat_series_drawn_at_bottom:
  assumes "2 \<le> length vs" and "\<forall>v \<in> set vs. v = c"
  shows "Math_max vs - Math_min vs = 0 \<and> spark_range vs = 1 \<and>
         (\<forall>p \<in> set (spark_points vs w h). snd p = h) \<and>
         (h \<noteq> 0 \<longrightarrow> (\<forall>p \<in> set (spark_points vs w h). snd p \<noteq> h / 2)) \<and>
         sparkPath vs w h =
           join '' '' (map (\<lambda>i. (if i = 0 then ''M'' else ''L'') @ '' '' @
                               toFixed (real i / (real (length vs) - 1) * w) 1 @ '' '' @
                               toFixed h 1)
                        [0..<length vs])"
proof -
  from assms(1) have ne: "vs \<noteq> []"
    by auto
  from assms(1) have steps: "spark_steps vs = real (length vs) - 1"
    by (simp add: spark_steps_def or_else_def)
  have 1: "Math_max vs - Math_min vs = 0"
    using ne assms(2) by (simp add: Math_max_const Math_min_const)
  have 2: "spark_range vs = 1"
    using ne assms(2) by (rule spark_range_const)
  have 3: "\<forall>p \<in> set (spark_points vs w h). snd p = h"
  proof
    fix p
    assume "p \<in> set (spark_points vs w h)"
    then obtain i v where iv: "(i, v) \<in> set (enumerate 0 vs)" and p: "p = spark_point vs w h i v"
      by (auto simp: spark_points_def)
    from iv have "v \<in> set vs"
      by (auto simp: in_set_enumerate_eq)
    with assms(2) have "v = c"
      by simp
    with p show "snd p = h"
      using spark_point_const [OF ne assms(2)] by simp
  qed
  have 4: "h \<noteq> 0 \<longrightarrow> (\<forall>p \<in> set (spark_points vs w h). snd p \<noteq> h / 2)"
    using 3 by auto
  have 5: "sparkPath vs w h =
           join '' '' (map (\<lambda>i. (if i = 0 then ''M'' else ''L'') @ '' '' @
                               toFixed (real i / (real (length vs) - 1) * w) 1 @ '' '' @
                               toFixed h 1)
                        [0..<length vs])"
    using sparkPath_const [OF ne assms(2)] by (simp only: steps)
  from 1 2 3 4 5 show ?thesis
    by (intro conjI) assumption+
qed

theorem flat_series_drawn_at_bottom_witness:
  "list_all (\<lambda>p. snd p = 10) (spark_points [2, 2, 2] 100 10) \<and>
   spark_points [2, 2, 2] 100 10 = [(0, 10), (50, 10), (100, 10)]"
proof -
  have "2 \<le> length [2, 2, 2 :: real]" "\<forall>v \<in> set [2, 2, 2 :: real]. v = 2"
    by simp_all
  from flat_series_drawn_at_bottom [OF this, of 100 10]
  have "\<forall>p \<in> set (spark_points [2, 2, 2] 100 10). snd p = 10"
    by blast
  then have "list_all (\<lambda>p. snd p = 10) (spark_points [2, 2, 2] 100 10)"
    by (simp only: list_all_iff)
  moreover have "spark_points [2, 2, 2] 100 10 = [(0, 10), (50, 10), (100, 10)]"
    by (simp add: spark_points_def spark_point_def spark_steps_def spark_range_def or_else_def
        Math_max_def Math_min_def enumerate_eq_zip Let_def upt_rec)
  ultimately show ?thesis
    by (rule conjI)
qed

text \<open>
  C6, as the code has it. \<open>sparkPath\<close> returns the empty string for the empty array, and
  neither of its two divisors is ever zero. For an array of one element both divisors are
  1 and the one point emitted is \<open>(0, h)\<close>, the lower left corner of the drawing box: the
  path is "M 0.0" followed by \<open>h\<close> printed with one decimal.
\<close>

theorem sparkPath_empty_and_single:
  "sparkPath [] w h = [] \<and>
   spark_steps vs \<noteq> 0 \<and> spark_range vs \<noteq> 0 \<and>
   spark_steps [v] = 1 \<and> spark_range [v] = 1 \<and>
   spark_points [v] w h = [(0, h)] \<and>
   sparkPath [v] w h = ''M 0.0 '' @ toFixed h 1"
proof -
  have 1: "sparkPath [] w h = []"
    by (simp add: sparkPath_def)
  have 2: "spark_steps vs \<noteq> 0" "spark_range vs \<noteq> 0"
    by (simp_all add: spark_steps_def spark_range_def or_else_nonzero)
  have 3: "spark_steps [v] = 1" "spark_range [v] = 1"
    by (simp_all add: spark_steps_def spark_range_def or_else_def Math_max_def Math_min_def)
  have p: "spark_point [v] w h 0 v = (0, h)"
    by (simp add: spark_point_def Let_def 3 Math_min_def)
  then have 4: "spark_points [v] w h = [(0, h)]"
    by (simp add: spark_points_def enumerate_eq_zip)
  have 5: "sparkPath [v] w h = ''M 0.0 '' @ toFixed h 1"
    using p toFixed_zero_1 by (simp add: sparkPath_def join_def enumerate_eq_zip)
  from 1 2 3 4 5 show ?thesis
    by (intro conjI) assumption+
qed

theorem sparkPath_empty_and_single_witness:
  "sparkPath [] 140 36 = [] \<and> sparkPath [7.4] 140 36 = ''M 0.0 36.0''"
  using sparkPath_empty_and_single [of 140 36 _ "7.4"] toFixed_36_1
  by simp

text \<open>
  C6 as stated fails: for the single value 5 in a box 140 wide and 36 high the point
  emitted is \<open>(0, 36)\<close>, not the midpoint \<open>(70, 18)\<close>.
\<close>

theorem single_value_not_at_midpoint_counterexample:
  "spark_points [5] 140 36 = [(0, 36)] \<and>
   spark_points [5] 140 36 \<noteq> [(140 / 2, 36 / 2)] \<and>
   sparkPath [5] 140 36 = ''M 0.0 36.0''"
proof -
  have s: "spark_steps [5] = 1" "spark_range [5] = 1" "Math_min [5] = 5"
    by (simp_all add: spark_steps_def spark_range_def or_else_def Math_max_def Math_min_def)
  have p: "spark_point [5] 140 36 0 5 = (0, 36)"
    by (simp add: spark_point_def Let_def s)
  then have 1: "spark_points [5] 140 36 = [(0, 36)]"
    by (simp add: spark_points_def enumerate_eq_zip)
  have 2: "sparkPath [5] 140 36 = ''M 0.0 36.0''"
    using p toFixed_zero_1 toFixed_36_1 by (simp add: sparkPath_def join_def enumerate_eq_zip)
  from 1 2 show ?thesis
    by simp
qed

end
